theory Spec2Isabelle
  imports Main "HOL-Library.Word" "HOL-Library.Char_ord" "HOL-Library.List_Lexorder"
begin

unbundle bit_operations_syntax

section \<open>The distributed planner (logicalplan/distribute.go)\<close>

text \<open>
  Times are Unix milliseconds and durations are milliseconds, as the code reads them
  (\<open>UnixMilli()\<close>, \<open>Milliseconds()\<close>). They are modelled as \<open>int\<close>: the values are
  far from the bounds of Go's \<open>int64\<close>, so no wrap-around is written out.
  Go's integer division truncates towards zero and panics on a zero divisor.
\<close>

definition quo :: "int \<Rightarrow> int \<Rightarrow> int" where
  "quo a b = sgn a * sgn b * (\<bar>a\<bar> div \<bar>b\<bar>)"

text \<open>
  The parser's item types that name operators (\<open>parser.SUM\<close> and so on); \<open>SUM\<close>, \<open>MIN\<close>
  and \<open>MAX\<close> carry a suffix, the plain names being notation of the logic.
\<close>

datatype ItemType =
  SUM_op | MIN_op | MAX_op | GROUP | COUNT | BOTTOMK | TOPK
  | AVG | STDDEV | STDVAR | COUNT_VALUES | QUANTILE | ADD | SUB | MUL | DIV

type_synonym Labels = "(string \<times> string) list"

text \<open>What the planner reads of an \<open>api.RemoteEngine\<close>.\<close>

record RemoteEngine =
  MinT :: int
  MaxT :: int
  LabelSets :: "Labels list"

record Opts =
  Start :: int
  End :: int
  Step :: int
  LookbackDelta :: int

record RemoteExecution =
  Engine :: RemoteEngine
  Query :: string
  QueryRangeStart :: int

record Deduplicate =
  Expressions :: "RemoteExecution list"

type_synonym PositionRange = "int \<times> int"

text \<open>
  \<open>parser.Expr\<close> with the two node kinds this package adds. A nil \<open>Param\<close> is \<open>None\<close>.
\<close>

datatype Expr =
    AggregateExpr ItemType Expr "Expr option" "string list" bool PositionRange
  | BinaryExpr ItemType Expr Expr
  | Call string "Expr list"
  | MatrixSelector Expr int
  | VectorSelector string Labels
  | NumberLiteral int
  | StringLiteral string
  | ParenExpr Expr
  | UnaryExpr ItemType Expr
  | SubqueryExpr Expr int int
  | StepInvariantExpr Expr
  | RemoteExecutionExpr RemoteExecution
  | DeduplicateExpr Deduplicate

definition distributiveAggregations :: "ItemType set" where
  "distributiveAggregations = {SUM_op, MIN_op, MAX_op, GROUP, COUNT, BOTTOMK, TOPK}"

text \<open>\<open>numSteps\<close>; \<open>None\<close> is the panic of an integer division by zero.\<close>

definition numSteps :: "int \<Rightarrow> int \<Rightarrow> int \<Rightarrow> int option" where
  "numSteps start end_t step =
     (if step = 0 then None else Some (quo (end_t - start) step + 1))"

definition calculateStepAlignedStart :: "RemoteEngine \<Rightarrow> Opts \<Rightarrow> int option" where
  "calculateStepAlignedStart engine opts =
     (case numSteps (Start opts) (End opts) (Step opts) of
        None \<Rightarrow> None
      | Some originalSteps \<Rightarrow>
          (case numSteps (MinT engine) (End opts) (Step opts) of
             None \<Rightarrow> None
           | Some remoteQuerySteps \<Rightarrow>
               (let stepsToSkip = originalSteps - remoteQuerySteps
                in Some (Start opts + stepsToSkip * Step opts))))"

text \<open>
  The loop of \<open>distributeQuery\<close> over the engines. \<open>str\<close> is the \<open>String()\<close> method of
  the parser's expressions, a parameter of the model. A panic of
  \<open>calculateStepAlignedStart\<close> ends the whole call.
\<close>

fun remoteQueries :: "(Expr \<Rightarrow> string) \<Rightarrow> Expr \<Rightarrow> Opts \<Rightarrow> RemoteEngine list
    \<Rightarrow> RemoteExecution list option" where
  "remoteQueries str expr opts [] = Some []"
| "remoteQueries str expr opts (e # es) =
     (if MaxT e < Start opts - LookbackDelta opts then remoteQueries str expr opts es
      else if MinT e > End opts then remoteQueries str expr opts es
      else
        (case (if MinT e > Start opts then calculateStepAlignedStart e opts
               else Some (Start opts)) of
           None \<Rightarrow> None
         | Some start \<Rightarrow>
             (case remoteQueries str expr opts es of
                None \<Rightarrow> None
              | Some rs \<Rightarrow>
                  Some (\<lparr>Engine = e, Query = str expr, QueryRangeStart = start\<rparr> # rs))))"

definition distributeQuery :: "(Expr \<Rightarrow> string) \<Rightarrow> Expr \<Rightarrow> RemoteEngine list \<Rightarrow> Opts
    \<Rightarrow> Deduplicate option" where
  "distributeQuery str expr engines opts =
     map_option (\<lambda>rs. \<lparr>Expressions = rs\<rparr>) (remoteQueries str expr opts engines)"

text \<open>
  \<open>newRemoteAggregation\<close>. The Go map used as a set of label names is a list without
  duplicates; its keys are sorted at the end, so the iteration order of the map does
  not show.
\<close>

definition groupingStep :: "bool \<Rightarrow> string list \<Rightarrow> string \<Rightarrow> string list" where
  "groupingStep without groupingSet name =
     (if without then removeAll name groupingSet else List.insert name groupingSet)"

definition engineLabelNames :: "RemoteEngine list \<Rightarrow> string list" where
  "engineLabelNames engines = concat (map (\<lambda>e. concat (map (map fst) (LabelSets e))) engines)"

definition newRemoteAggregation :: "Expr \<Rightarrow> RemoteEngine list \<Rightarrow> Expr" where
  "newRemoteAggregation rootAggregation engines =
     (case rootAggregation of
        AggregateExpr op arg param grouping without pos \<Rightarrow>
          (let groupingSet = foldl (groupingStep without) (remdups grouping)
                 (engineLabelNames engines);
               groupingLabels = sort groupingSet
           in AggregateExpr op arg param groupingLabels without pos)
      | e \<Rightarrow> e)"

text \<open>\<open>isDistributive\<close>; the argument is a pointer that may be nil.\<close>

fun isDistributive :: "Expr option \<Rightarrow> bool" where
  "isDistributive None = False"
| "isDistributive (Some (BinaryExpr op l r)) = False"
| "isDistributive (Some (AggregateExpr op arg param grouping without pos)) =
     (op \<in> distributiveAggregations)"
| "isDistributive (Some (Call f args)) = (length args > 0)"
| "isDistributive (Some e) = True"

text \<open>
  The function \<open>Optimize\<close> hands to \<open>traverseBottomUp\<close>: from the parent and the current
  node to the node that stands in the plan afterwards and the \<open>stop\<close> flag. \<open>None\<close> is
  the panic of \<open>distributeQuery\<close>; the callback has no other way to fail, and \<open>Optimize\<close>
  returns an expression and no error value.
\<close>

definition optimizeVisit :: "(Expr \<Rightarrow> string) \<Rightarrow> RemoteEngine list \<Rightarrow> Opts
    \<Rightarrow> Expr option \<Rightarrow> Expr \<Rightarrow> (Expr \<times> bool) option" where
  "optimizeVisit str engines opts parent current =
     (if \<not> isDistributive (Some current) then Some (current, True)
      else
        (case current of
           AggregateExpr op arg param grouping without pos \<Rightarrow>
             (let localAggregation = (if op = COUNT then SUM_op else op);
                  remoteAggregation = newRemoteAggregation current engines
              in (case distributeQuery str remoteAggregation engines opts of
                    None \<Rightarrow> None
                  | Some subQueries \<Rightarrow>
                      Some (AggregateExpr localAggregation (DeduplicateExpr subQueries)
                              param grouping without pos, True)))
         | _ \<Rightarrow>
             (if isDistributive parent then Some (current, False)
              else
                (case distributeQuery str current engines opts of
                   None \<Rightarrow> None
                 | Some d \<Rightarrow> Some (DeduplicateExpr d, True)))))"

definition skipped :: "Opts \<Rightarrow> RemoteEngine \<Rightarrow> bool" where
  "skipped opts e \<longleftrightarrow> MaxT e < Start opts - LookbackDelta opts \<or> MinT e > End opts"

text \<open>The type assertion \<open>(*current).(*parser.AggregateExpr)\<close>.\<close>

fun isAggregateExpr :: "Expr \<Rightarrow> bool" where
  "isAggregateExpr (AggregateExpr op arg param grouping without pos) = True"
| "isAggregateExpr e = False"

section \<open>What both selectors share\<close>

text \<open>
  A \<open>float64\<close> is its IEEE-754 bit pattern: the selectors copy sample values and test
  them for the stale marker, and do no arithmetic on them. \<open>value.IsStaleNaN\<close> of the
  Prometheus library compares the bits with the constant \<open>StaleNaN\<close>.
\<close>

type_synonym float64 = "64 word"
type_synonym uint64 = "64 word"

definition StaleNaN :: float64 where
  "StaleNaN = 0x7ff0000000000002"

definition IsStaleNaN :: "float64 \<Rightarrow> bool" where
  "IsStaleNaN v \<longleftrightarrow> v = StaleNaN"

datatype error = Canceled | DeadlineExceeded | StorageError string | IteratorError string

text \<open>
  A \<open>context.Context\<close> is read at moments of a pull. The model carries what \<open>ctx.Err()\<close>
  gives when the pull starts and when the pull is about to return (\<open>None\<close> is nil: not
  done).
\<close>

record Context =
  errAtEntry :: "error option"
  errAtReturn :: "error option"

text \<open>
  Modelled from the spec: the step vector and the pool of the \<open>model\<close> package, which is
  not among the sources. \<open>GetVectorBatch\<close> gives an empty batch, \<open>GetStepVector t\<close> an
  empty step vector for the time \<open>t\<close>, \<open>AppendSample\<close> and \<open>AppendHistogram\<close> add one entry
  under a signature; capacities and \<open>SetStepSize\<close> do not show in the values.
\<close>

datatype FloatHistogram = FloatHistogram nat

record StepVector =
  sv_T :: int
  SampleIDs :: "uint64 list"
  Samples :: "float64 list"
  HistogramIDs :: "uint64 list"
  Histograms :: "FloatHistogram list"

definition GetVectorBatch :: "StepVector list" where
  "GetVectorBatch = []"

definition GetStepVector :: "int \<Rightarrow> StepVector" where
  "GetStepVector t =
     \<lparr>sv_T = t, SampleIDs = [], Samples = [], HistogramIDs = [], Histograms = []\<rparr>"

definition AppendSample :: "uint64 \<Rightarrow> float64 \<Rightarrow> StepVector \<Rightarrow> StepVector" where
  "AppendSample sig v sv = sv\<lparr>SampleIDs := SampleIDs sv @ [sig], Samples := Samples sv @ [v]\<rparr>"

definition AppendHistogram :: "uint64 \<Rightarrow> FloatHistogram \<Rightarrow> StepVector \<Rightarrow> StepVector" where
  "AppendHistogram sig h sv =
     sv\<lparr>HistogramIDs := HistogramIDs sv @ [sig], Histograms := Histograms sv @ [h]\<rparr>"

section \<open>The vector selector (physicalplan/scan/vector\_selector.go)\<close>

text \<open>
  The \<open>chunkenc.Iterator\<close> of a series, over its samples in time order: \<open>Next\<close> moves to
  the next sample and says whether there was one, \<open>At\<close> reads the current one. Before the
  first \<open>Next\<close> the current sample is the zero value; after the last it stays.
\<close>

record Iterator =
  it_cur :: "int \<times> float64"
  it_rest :: "(int \<times> float64) list"

definition newIterator :: "(int \<times> float64) list \<Rightarrow> Iterator" where
  "newIterator xs = \<lparr>it_cur = (0, 0), it_rest = xs\<rparr>"

record vectorScanner =
  vs_labels :: Labels
  vs_signature :: uint64
  vs_samples :: Iterator
  pastFirstIteration :: bool
  hasPrev :: bool
  prevTime :: int
  prevValue :: float64

definition vectorScanner_At :: "vectorScanner \<Rightarrow> int \<times> float64" where
  "vectorScanner_At it = it_cur (vs_samples it)"

function vectorScanner_Seek :: "int \<Rightarrow> vectorScanner \<Rightarrow> bool \<times> vectorScanner" where
  "vectorScanner_Seek ts it =
     (let it1 = (if pastFirstIteration it
                 then it\<lparr>prevTime := fst (it_cur (vs_samples it)),
                         prevValue := snd (it_cur (vs_samples it)),
                         hasPrev := True\<rparr>
                 else it)
      in (case it_rest (vs_samples it1) of
            [] \<Rightarrow> (False, it1)
          | s # ss \<Rightarrow>
              (let it2 = it1\<lparr>vs_samples := \<lparr>it_cur = s, it_rest = ss\<rparr>,
                             pastFirstIteration := True\<rparr>
               in if fst s \<ge> ts then (True, it2) else vectorScanner_Seek ts it2)))"
  by pat_completeness auto
termination
  by (relation "measure (\<lambda>(ts, it). length (it_rest (vs_samples it)))") (auto split: if_splits)

text \<open>\<open>selectPoint\<close>: \<open>None\<close> is the result \<open>(0, 0, false)\<close>.\<close>

definition selectPoint :: "int \<Rightarrow> int \<Rightarrow> vectorScanner
    \<Rightarrow> (int \<times> float64) option \<times> vectorScanner" where
  "selectPoint ts lookbackDelta it =
     (let refTime = ts;
          (ok, it') = vectorScanner_Seek refTime it;
          (t, v) = (if ok then vectorScanner_At it' else (0, 0))
      in if \<not> ok \<or> t > refTime
         then (if \<not> hasPrev it' \<or> prevTime it' < refTime - lookbackDelta then (None, it')
               else if IsStaleNaN (prevValue it') then (None, it')
               else (Some (prevTime it', prevValue it'), it'))
         else if IsStaleNaN v then (None, it')
         else (Some (t, v), it'))"

text \<open>
  A series as the storage of the vector selector hands it out: labels, signature and
  the samples its iterator yields.
\<close>

record signedSeries =
  ss_labels :: Labels
  ss_signature :: uint64
  ss_samples :: "(int \<times> float64) list"

record vectorSelector =
  vs_storage :: "Context \<Rightarrow> int \<Rightarrow> int \<Rightarrow> error + signedSeries list"
  vs_scanners :: "vectorScanner list"
  vs_series :: "Labels list"
  vs_once :: bool
  vs_mint :: int
  vs_maxt :: int
  vs_step :: int
  vs_currentStep :: int
  stepsBatch :: int
  lookbackDelta :: int
  vs_shard :: int
  vs_numShards :: int

definition NewVectorSelector :: "(Context \<Rightarrow> int \<Rightarrow> int \<Rightarrow> error + signedSeries list)
    \<Rightarrow> int \<Rightarrow> int \<Rightarrow> int \<Rightarrow> int \<Rightarrow> int \<Rightarrow> int \<Rightarrow> int \<Rightarrow> vectorSelector" where
  "NewVectorSelector selector mint maxt step lookback batch shard numShards =
     \<lparr>vs_storage = selector, vs_scanners = [], vs_series = [], vs_once = False,
      vs_mint = mint, vs_maxt = maxt, vs_step = step, vs_currentStep = mint,
      stepsBatch = batch, lookbackDelta = lookback, vs_shard = shard,
      vs_numShards = numShards\<rparr>"

definition newVectorScanner :: "signedSeries \<Rightarrow> vectorScanner" where
  "newVectorScanner s =
     \<lparr>vs_labels = ss_labels s, vs_signature = ss_signature s,
      vs_samples = newIterator (ss_samples s), pastFirstIteration = False,
      hasPrev = False, prevTime = 0, prevValue = 0\<rparr>"

text \<open>
  \<open>loadSeries\<close>. \<open>sync.Once\<close> runs the function on the first call only, whatever it did;
  \<open>err\<close> is a local variable of the call, so a later call returns nil.
\<close>

definition vectorSelector_loadSeries :: "Context \<Rightarrow> vectorSelector
    \<Rightarrow> error option \<times> vectorSelector" where
  "vectorSelector_loadSeries ctx sel =
     (if vs_once sel then (None, sel)
      else
        (case vs_storage sel ctx (vs_shard sel) (vs_numShards sel) of
           Inl loadErr \<Rightarrow> (Some loadErr, sel\<lparr>vs_once := True\<rparr>)
         | Inr series \<Rightarrow>
             (None, sel\<lparr>vs_once := True,
                       vs_scanners := map newVectorScanner series,
                       vs_series := map ss_labels series\<rparr>)))"

definition vectorSelector_Series :: "Context \<Rightarrow> vectorSelector
    \<Rightarrow> (error + Labels list) \<times> vectorSelector" where
  "vectorSelector_Series ctx sel =
     (case vectorSelector_loadSeries ctx sel of
        (Some err, o') \<Rightarrow> (Inl err, o')
      | (None, o') \<Rightarrow> (Inr (vs_series o'), o'))"

text \<open>
  The inner loop of \<open>Next\<close> for one scanner: \<open>n\<close> counts the iterations that
  \<open>currStep < numSteps\<close> still allows. The index \<open>currStep\<close> is within \<open>vectors\<close>, which
  has been extended to it just before.
\<close>

fun vectorSelector_steps :: "int \<Rightarrow> int \<Rightarrow> int \<Rightarrow> nat \<Rightarrow> nat \<Rightarrow> int \<Rightarrow> vectorScanner
    \<Rightarrow> StepVector list \<Rightarrow> vectorScanner \<times> StepVector list" where
  "vectorSelector_steps maxt step lookback 0 currStep seriesTs series vectors =
     (series, vectors)"
| "vectorSelector_steps maxt step lookback (Suc n) currStep seriesTs series vectors =
     (if seriesTs \<le> maxt then
        (let vectors1 = (if length vectors \<le> currStep
                         then vectors @ [GetStepVector seriesTs] else vectors);
             (r, series') = selectPoint seriesTs lookback series;
             vectors2 = (case r of
                           None \<Rightarrow> vectors1
                         | Some (t, v) \<Rightarrow>
                             vectors1[currStep :=
                               AppendSample (vs_signature series') v (vectors1 ! currStep)])
         in vectorSelector_steps maxt step lookback n (Suc currStep) (seriesTs + step)
              series' vectors2)
      else (series, vectors))"

text \<open>The outer loop over the scanners.\<close>

fun vectorSelector_scan :: "int \<Rightarrow> int \<Rightarrow> int \<Rightarrow> nat \<Rightarrow> int \<Rightarrow> vectorScanner list
    \<Rightarrow> StepVector list \<Rightarrow> vectorScanner list \<times> StepVector list" where
  "vectorSelector_scan maxt step lookback n ts [] vectors = ([], vectors)"
| "vectorSelector_scan maxt step lookback n ts (series # rest) vectors =
     (let (series', vectors1) = vectorSelector_steps maxt step lookback n 0 ts series vectors;
          (rest', vectors2) = vectorSelector_scan maxt step lookback n ts rest vectors1
      in (series' # rest', vectors2))"

text \<open>
  \<open>Next\<close>: \<open>Inr None\<close> is the end of the stream (\<open>nil, nil\<close>). The context is handed to
  \<open>loadSeries\<close> and not read otherwise. \<open>math.Min\<close> on the two counts is the smaller one.
\<close>

definition vectorSelector_Next :: "Context \<Rightarrow> vectorSelector
    \<Rightarrow> (error + StepVector list option) \<times> vectorSelector" where
  "vectorSelector_Next ctx sel =
     (if vs_currentStep sel > vs_maxt sel then (Inr None, sel)
      else
        (case vectorSelector_loadSeries ctx sel of
           (Some err, o1) \<Rightarrow> (Inl err, o1)
         | (None, o1) \<Rightarrow>
             (let totalSteps = (if vs_step o1 \<noteq> 0
                                then quo (vs_maxt o1 - vs_mint o1) (vs_step o1) + 1 else 1);
                  o2 = (if vs_step o1 \<noteq> 0 then o1 else o1\<lparr>vs_step := 1\<rparr>);
                  numSteps = min (stepsBatch o2) totalSteps;
                  ts = vs_currentStep o2;
                  (scanners', vectors) =
                     vectorSelector_scan (vs_maxt o2) (vs_step o2) (lookbackDelta o2)
                       (nat numSteps) ts (vs_scanners o2) GetVectorBatch
              in (Inr (Some vectors),
                  o2\<lparr>vs_scanners := scanners',
                     vs_currentStep := vs_currentStep o2 + vs_step o2 * numSteps\<rparr>))))"

section \<open>The matrix selector (physicalplan/scan/matrix\_selector.go)\<close>

subsection \<open>The storage iterators\<close>

text \<open>
  A sample of a series is a float or a histogram; \<open>AtFloatHistogram\<close> reads either kind
  of histogram as a float histogram.
\<close>

datatype ValueType = ValNone | ValFloat | ValHistogram | ValFloatHistogram

datatype SampleValue =
  FloatValue float64 | HistogramValue FloatHistogram | FloatHistogramValue FloatHistogram

type_synonym StreamSample = "int \<times> SampleValue"

fun valueTypeOf :: "StreamSample \<Rightarrow> ValueType" where
  "valueTypeOf (t, FloatValue v) = ValFloat"
| "valueTypeOf (t, HistogramValue h) = ValHistogram"
| "valueTypeOf (t, FloatHistogramValue h) = ValFloatHistogram"

fun sampleFloat :: "StreamSample \<Rightarrow> int \<times> float64" where
  "sampleFloat (t, FloatValue v) = (t, v)"
| "sampleFloat (t, x) = (t, 0)"

fun sampleFloatHistogram :: "StreamSample \<Rightarrow> int \<times> FloatHistogram option" where
  "sampleFloatHistogram (t, FloatValue v) = (t, None)"
| "sampleFloatHistogram (t, HistogramValue h) = (t, Some h)"
| "sampleFloatHistogram (t, FloatHistogramValue h) = (t, Some h)"

text \<open>
  Modelled from the spec: the sample iterator of a series (section 6: \<open>Next\<close>, \<open>Seek\<close>,
  \<open>At\<close>, \<open>AtFloatHistogram\<close>, \<open>Err\<close>), which the storage library provides. It runs over
  the samples of the series in time order. \<open>Next\<close> moves to the next sample; \<open>Seek t\<close>
  moves forward to the first sample at or after \<open>t\<close> and stays where it is when the
  current sample is one; both give \<open>ValNone\<close> when the samples are used up, and from
  then on \<open>Err\<close> gives the error the series ends with, if it has one.
\<close>

record SeriesIterator =
  si_cur :: "StreamSample option"
  si_rest :: "StreamSample list"
  si_fail :: "error option"
  si_err :: "error option"

definition newSeriesIterator :: "StreamSample list \<Rightarrow> error option \<Rightarrow> SeriesIterator" where
  "newSeriesIterator xs fail = \<lparr>si_cur = None, si_rest = xs, si_fail = fail, si_err = None\<rparr>"

definition si_moveTo :: "StreamSample list \<Rightarrow> SeriesIterator \<Rightarrow> ValueType \<times> SeriesIterator" where
  "si_moveTo xs it =
     (case xs of
        [] \<Rightarrow> (ValNone, it\<lparr>si_cur := None, si_rest := [], si_err := si_fail it\<rparr>)
      | s # ss \<Rightarrow> (valueTypeOf s, it\<lparr>si_cur := Some s, si_rest := ss\<rparr>))"

definition si_Next :: "SeriesIterator \<Rightarrow> ValueType \<times> SeriesIterator" where
  "si_Next it = si_moveTo (si_rest it) it"

definition si_Seek :: "int \<Rightarrow> SeriesIterator \<Rightarrow> ValueType \<times> SeriesIterator" where
  "si_Seek t it =
     (case si_cur it of
        Some s \<Rightarrow> (if fst s \<ge> t then (valueTypeOf s, it)
                   else si_moveTo (dropWhile (\<lambda>x. fst x < t) (si_rest it)) it)
      | None \<Rightarrow> si_moveTo (dropWhile (\<lambda>x. fst x < t) (si_rest it)) it)"

definition si_At :: "SeriesIterator \<Rightarrow> StreamSample" where
  "si_At it = (case si_cur it of Some s \<Rightarrow> s | None \<Rightarrow> (0, FloatValue 0))"

text \<open>
  Modelled from the spec: the buffered wrapper over an iterator (section 6: it retains a
  sliding back-window of configurable length and exposes \<open>Buffer()\<close> and
  \<open>ReduceDelta(newWindow)\<close>), the \<open>BufferedSeriesIterator\<close> of the storage library with its
  ring of samples. The wrapper stands on a current sample of the iterator and keeps
  the samples it has passed: \<open>add\<close> appends the sample left behind and then frees, from
  the head of the ring, the samples more than \<open>delta\<close> older than it; \<open>reduceDelta\<close> lowers
  \<open>delta\<close> and frees the head against the newest sample kept. \<open>Seek t\<close> empties the ring
  and seeks the iterator to \<open>t - delta\<close> when that is after the current sample, and then
  advances with \<open>Next\<close> until the current sample is at or after \<open>t\<close> or the samples are
  used up. The window lengths are not negative.
\<close>

record BufferedSeriesIterator =
  bsi_it :: SeriesIterator
  bsi_buf :: "StreamSample list"
  bsi_bufDelta :: int
  bsi_delta :: int
  lastTime :: int
  valueType :: ValueType

definition MinInt64 :: int where
  "MinInt64 = - 9223372036854775808"

definition sampleRing_add :: "StreamSample \<Rightarrow> int \<Rightarrow> StreamSample list \<Rightarrow> StreamSample list" where
  "sampleRing_add s delta buf = dropWhile (\<lambda>x. fst x < fst s - delta) (buf @ [s])"

definition NewBufferIterator :: "SeriesIterator \<Rightarrow> int \<Rightarrow> BufferedSeriesIterator" where
  "NewBufferIterator it delta =
     (let (vt, it') = si_Next it
      in \<lparr>bsi_it = it', bsi_buf = [], bsi_bufDelta = delta, bsi_delta = delta,
          lastTime = MinInt64, valueType = vt\<rparr>)"

definition ReduceDelta :: "int \<Rightarrow> BufferedSeriesIterator \<Rightarrow> BufferedSeriesIterator" where
  "ReduceDelta delta b =
     (if delta > bsi_bufDelta b then b
      else if bsi_buf b = [] then b\<lparr>bsi_bufDelta := delta\<rparr>
      else b\<lparr>bsi_bufDelta := delta,
              bsi_buf := dropWhile (\<lambda>x. fst x < fst (last (bsi_buf b)) - delta) (bsi_buf b)\<rparr>)"

definition BufferedSeriesIterator_Next :: "BufferedSeriesIterator \<Rightarrow> BufferedSeriesIterator" where
  "BufferedSeriesIterator_Next b =
     (if valueType b = ValNone then b
      else
        (let buf' = sampleRing_add (si_At (bsi_it b)) (bsi_bufDelta b) (bsi_buf b);
             (vt, it') = si_Next (bsi_it b)
         in b\<lparr>bsi_buf := buf', bsi_it := it', valueType := vt,
               lastTime := (if vt \<noteq> ValNone then fst (si_At it') else lastTime b)\<rparr>))"

lemma BufferedSeriesIterator_Next_rest:
  "valueType (BufferedSeriesIterator_Next b) \<noteq> ValNone \<Longrightarrow>
     length (si_rest (bsi_it (BufferedSeriesIterator_Next b))) < length (si_rest (bsi_it b))"
  by (auto simp: BufferedSeriesIterator_Next_def si_Next_def si_moveTo_def Let_def
      split: if_splits list.splits prod.splits)

function BufferedSeriesIterator_advance :: "int \<Rightarrow> BufferedSeriesIterator
    \<Rightarrow> BufferedSeriesIterator" where
  "BufferedSeriesIterator_advance t b =
     (let b' = BufferedSeriesIterator_Next b
      in if valueType b' = ValNone \<or> lastTime b' \<ge> t then b'
         else BufferedSeriesIterator_advance t b')"
  by pat_completeness auto
termination
  by (relation "measure (\<lambda>(t, b). length (si_rest (bsi_it b)))")
     (auto simp: BufferedSeriesIterator_Next_rest)

definition BufferedSeriesIterator_Seek :: "int \<Rightarrow> BufferedSeriesIterator
    \<Rightarrow> ValueType \<times> BufferedSeriesIterator" where
  "BufferedSeriesIterator_Seek t b =
     (let t0 = t - bsi_bufDelta b;
          (stop, b1) =
             (if valueType b \<noteq> ValNone \<and> t0 > lastTime b then
                (let (vt, it') = si_Seek t0 (bsi_it b);
                     b' = b\<lparr>bsi_buf := [], bsi_it := it', valueType := vt\<rparr>
                 in if vt = ValNone then (True, b')
                    else (False, b'\<lparr>lastTime := fst (si_At it')\<rparr>))
              else (False, b))
      in if stop then (ValNone, b1)
         else if lastTime b1 \<ge> t then (valueType b1, b1)
         else (let b2 = BufferedSeriesIterator_advance t b1 in (valueType b2, b2)))"

definition Buffer :: "BufferedSeriesIterator \<Rightarrow> StreamSample list" where
  "Buffer b = bsi_buf b"

definition BufferedSeriesIterator_Err :: "BufferedSeriesIterator \<Rightarrow> error option" where
  "BufferedSeriesIterator_Err b = si_err (bsi_it b)"

subsection \<open>Selecting the points of a window\<close>

record Point =
  pt_T :: int
  pt_V :: float64
  pt_H :: "FloatHistogram option"

definition floatPoint :: "int \<Rightarrow> float64 \<Rightarrow> Point" where
  "floatPoint t v = \<lparr>pt_T = t, pt_V = v, pt_H = None\<rparr>"

definition histogramPoint :: "int \<Rightarrow> FloatHistogram option \<Rightarrow> Point" where
  "histogramPoint t h = \<lparr>pt_T = t, pt_V = 0, pt_H = h\<rparr>"

text \<open>
  The loop of \<open>selectPoints\<close> over the buffer. \<open>None\<close> is the panic of
  \<open>out[len(out)-1] = ...\<close> on an empty slice.
\<close>

fun selectPoints_buffer :: "bool \<Rightarrow> int \<Rightarrow> StreamSample list \<Rightarrow> Point list \<Rightarrow> bool
    \<Rightarrow> Point list option" where
  "selectPoints_buffer extRange mint [] out appendedPointBeforeMint = Some out"
| "selectPoints_buffer extRange mint (s # buf) out appendedPointBeforeMint =
     (case valueTypeOf s of
        ValNone \<Rightarrow> Some out
      | ValFloat \<Rightarrow>
          (let (t, v) = sampleFloat s
           in if IsStaleNaN v
              then selectPoints_buffer extRange mint buf out appendedPointBeforeMint
              else if \<not> extRange then
                selectPoints_buffer extRange mint buf
                  (if t \<ge> mint then out @ [floatPoint t v] else out) appendedPointBeforeMint
              else if t > mint \<or> \<not> appendedPointBeforeMint then
                selectPoints_buffer extRange mint buf (out @ [floatPoint t v]) True
              else if out = [] then None
              else selectPoints_buffer extRange mint buf
                     (out[length out - 1 := floatPoint t v]) appendedPointBeforeMint)
      | _ \<Rightarrow>
          (let (t, h) = sampleFloatHistogram s
           in selectPoints_buffer extRange mint buf
                (if t \<ge> mint then out @ [histogramPoint t h] else out)
                appendedPointBeforeMint))"

text \<open>The sample the iterator stands on after the seek, taken when it is at \<open>maxt\<close>.\<close>

definition selectPoints_sought :: "ValueType \<Rightarrow> BufferedSeriesIterator \<Rightarrow> int \<Rightarrow> Point list
    \<Rightarrow> Point list" where
  "selectPoints_sought soughtValueType it maxt out =
     (case soughtValueType of
        ValNone \<Rightarrow> out
      | ValFloat \<Rightarrow>
          (let (t, v) = sampleFloat (si_At (bsi_it it))
           in if t = maxt \<and> \<not> IsStaleNaN v then out @ [floatPoint t v] else out)
      | _ \<Rightarrow>
          (let (t, h) = sampleFloatHistogram (si_At (bsi_it it))
           in if t = maxt then out @ [histogramPoint t h] else out))"

text \<open>
  The number \<open>drop\<close> of points that \<open>selectPoints\<close> leaves out at the head of \<open>out\<close>
  when the last point of \<open>out\<close> is not before \<open>mint\<close>; the loops over \<open>out\<close> then stay
  within it.
\<close>

definition selectPoints_drop :: "bool \<Rightarrow> int \<Rightarrow> int \<Rightarrow> Point list \<Rightarrow> nat" where
  "selectPoints_drop extRange mint extMint out =
     (if \<not> extRange then length (takeWhile (\<lambda>p. pt_T p < mint) out)
      else
        (let drop = length (takeWhile (\<lambda>p. pt_T p \<le> mint) out)
         in if drop > 0 \<and> pt_T (out ! (drop - 1)) \<ge> extMint then drop - 1 else drop))"

text \<open>
  The first part of \<open>selectPoints\<close>: the points of \<open>out\<close> that are kept, the bound from
  which the buffer is read, and what the caller's slice holds after
  \<open>copy(out, out[drop:])\<close>, which changes it in place.
\<close>

definition selectPoints_reuse :: "bool \<Rightarrow> int \<Rightarrow> int \<Rightarrow> Point list
    \<Rightarrow> Point list \<times> int \<times> Point list" where
  "selectPoints_reuse extRange mint extMint out =
     (if out \<noteq> [] \<and> pt_T (last out) \<ge> mint then
        (let drop = selectPoints_drop extRange mint extMint out
         in (List.drop drop out, pt_T (last out) + 1,
             List.drop drop out @ List.drop (length out - drop) out))
      else ([], mint, out))"

text \<open>
  \<open>selectPoints\<close>. The result is the point list or the error, with the iterator as the
  call leaves it; with the error comes what the caller's slice holds by then. \<open>isExt\<close>
  is \<open>function.IsExtFunction\<close>, which is not among the sources. \<open>Panic\<close> stands for the
  runtime panic of the loop over the buffer.
\<close>

datatype failure = Error error | Panic

definition selectPoints :: "(string \<Rightarrow> bool) \<Rightarrow> BufferedSeriesIterator \<Rightarrow> int \<Rightarrow> int
    \<Rightarrow> Point list \<Rightarrow> string \<Rightarrow> int
    \<Rightarrow> ((failure \<times> Point list) + Point list) \<times> BufferedSeriesIterator" where
  "selectPoints isExt it mint maxt out functionName extLookbackDelta =
     (let extRange = isExt functionName;
          extMint = (if extRange then mint - extLookbackDelta else 0);
          (out1, mint1, copied) = selectPoints_reuse extRange mint extMint out;
          (soughtValueType, it') = BufferedSeriesIterator_Seek maxt it
      in if soughtValueType = ValNone \<and> BufferedSeriesIterator_Err it' \<noteq> None
         then (Inl (Error (the (BufferedSeriesIterator_Err it')), copied), it')
         else
           (case selectPoints_buffer extRange mint1 (Buffer it') out1 (out1 \<noteq> []) of
              None \<Rightarrow> (Inl (Panic, copied), it')
            | Some out2 \<Rightarrow> (Inr (selectPoints_sought soughtValueType it' maxt out2), it')))"

text \<open>No point of the list carries the stale marker as its value.\<close>

definition noStale :: "Point list \<Rightarrow> bool" where
  "noStale ps \<longleftrightarrow> (\<forall>p \<in> set ps. \<not> IsStaleNaN (pt_V p))"

subsection \<open>The operator\<close>

text \<open>
  Go compares two \<open>float64\<close> by value: a NaN differs from everything, and the two
  zeros are equal. \<open>result.Point != function.InvalidSample.Point\<close> compares the time,
  the value in this way and the histogram pointer.
\<close>

definition float64_isNaN :: "float64 \<Rightarrow> bool" where
  "float64_isNaN v \<longleftrightarrow>
     v AND 0x7FF0000000000000 = 0x7FF0000000000000 \<and> v AND 0x000FFFFFFFFFFFFF \<noteq> 0"

definition float64_eq :: "float64 \<Rightarrow> float64 \<Rightarrow> bool" where
  "float64_eq a b \<longleftrightarrow>
     \<not> float64_isNaN a \<and> \<not> float64_isNaN b
     \<and> (a = b \<or> (a AND 0x7FFFFFFFFFFFFFFF = 0 \<and> b AND 0x7FFFFFFFFFFFFFFF = 0))"

definition point_eq :: "Point \<Rightarrow> Point \<Rightarrow> bool" where
  "point_eq p q \<longleftrightarrow> pt_T p = pt_T q \<and> float64_eq (pt_V p) (pt_V q) \<and> pt_H p = pt_H q"

record Sample =
  sample_Point :: Point
  sample_Metric :: Labels

record FunctionArgs =
  fa_Labels :: Labels
  fa_Points :: "Point list"
  fa_StepTime :: int
  fa_SelectRange :: int
  fa_Offset :: int

text \<open>
  What the selector uses of the \<open>function\<close> package, which is not among the sources: a
  parameter of the model.
\<close>

record functionPkg =
  IsExtFunction :: "string \<Rightarrow> bool"
  InvalidSample :: Sample
  DropMetricName :: "Labels \<Rightarrow> Labels"

text \<open>
  A series as the storage of the matrix selector hands it out, with the error its
  iterator ends with, if any.
\<close>

record SignedSeries =
  sg_labels :: Labels
  sg_signature :: uint64
  sg_samples :: "StreamSample list"
  sg_fail :: "error option"

record matrixScanner =
  ms_labels :: Labels
  ms_signature :: uint64
  previousPoints :: "Point list"
  ms_samples :: BufferedSeriesIterator

record matrixSelector =
  funcName :: string
  ms_storage :: "Context \<Rightarrow> int \<Rightarrow> int \<Rightarrow> error + SignedSeries list"
  ms_call :: "FunctionArgs \<Rightarrow> Sample"
  ms_scanners :: "matrixScanner list"
  ms_series :: "Labels list"
  ms_once :: bool
  ms_numSteps :: int
  ms_mint :: int
  ms_maxt :: int
  ms_step :: int
  selectRange :: int
  offset :: int
  ms_currentStep :: int
  ms_shard :: int
  ms_numShards :: int
  extLookbackDelta :: int

text \<open>
  \<open>NewMatrixSelector\<close>; \<open>numSteps\<close> is \<open>opts.NumSteps()\<close> of the query options, which are
  not among the sources.
\<close>

definition NewMatrixSelector :: "(Context \<Rightarrow> int \<Rightarrow> int \<Rightarrow> error + SignedSeries list)
    \<Rightarrow> (FunctionArgs \<Rightarrow> Sample) \<Rightarrow> string \<Rightarrow> int \<Rightarrow> int \<Rightarrow> int \<Rightarrow> int \<Rightarrow> int \<Rightarrow> int
    \<Rightarrow> int \<Rightarrow> int \<Rightarrow> int \<Rightarrow> matrixSelector" where
  "NewMatrixSelector selector call name nSteps start end_t step selRange off shard numShard ext =
     \<lparr>funcName = name, ms_storage = selector, ms_call = call, ms_scanners = [],
      ms_series = [], ms_once = False, ms_numSteps = nSteps, ms_mint = start,
      ms_maxt = end_t, ms_step = step, selectRange = selRange, offset = off,
      ms_currentStep = start, ms_shard = shard, ms_numShards = numShard,
      extLookbackDelta = ext\<rparr>"

text \<open>
  The scanner \<open>loadSeries\<close> makes for a series: the metric name is dropped unless the
  function is \<open>last_over_time\<close>, the labels are sorted by name, and the buffer looks
  further back for an extended range function.
\<close>

definition newMatrixScanner :: "functionPkg \<Rightarrow> matrixSelector \<Rightarrow> SignedSeries \<Rightarrow> matrixScanner" where
  "newMatrixScanner fn sel s =
     (let lbls = (if funcName sel \<noteq> ''last_over_time''
                  then DropMetricName fn (sg_labels s) else sg_labels s);
          selRange = (if IsExtFunction fn (funcName sel)
                      then selectRange sel + extLookbackDelta sel else selectRange sel)
      in \<lparr>ms_labels = sort_key fst lbls, ms_signature = sg_signature s,
          previousPoints = [],
          ms_samples = NewBufferIterator (newSeriesIterator (sg_samples s) (sg_fail s)) selRange\<rparr>)"

definition matrixSelector_loadSeries :: "functionPkg \<Rightarrow> Context \<Rightarrow> matrixSelector
    \<Rightarrow> error option \<times> matrixSelector" where
  "matrixSelector_loadSeries fn ctx sel =
     (if ms_once sel then (None, sel)
      else
        (case ms_storage sel ctx (ms_shard sel) (ms_numShards sel) of
           Inl loadErr \<Rightarrow> (Some loadErr, sel\<lparr>ms_once := True\<rparr>)
         | Inr series \<Rightarrow>
             (None, sel\<lparr>ms_once := True,
                        ms_scanners := map (newMatrixScanner fn sel) series,
                        ms_series := map (\<lambda>s. ms_labels (newMatrixScanner fn sel s)) series\<rparr>)))"

definition matrixSelector_Series :: "functionPkg \<Rightarrow> Context \<Rightarrow> matrixSelector
    \<Rightarrow> (error + Labels list) \<times> matrixSelector" where
  "matrixSelector_Series fn ctx sel =
     (case matrixSelector_loadSeries fn ctx sel of
        (Some err, sel') \<Rightarrow> (Inl err, sel')
      | (None, sel') \<Rightarrow> (Inr (ms_series sel'), sel'))"

text \<open>What \<open>Next\<close> writes into the step vector for the result of the function call.\<close>

definition appendResult :: "uint64 \<Rightarrow> Sample \<Rightarrow> StepVector \<Rightarrow> StepVector" where
  "appendResult sig result sv =
     (let sv' = sv\<lparr>sv_T := pt_T (sample_Point result)\<rparr>
      in (case pt_H (sample_Point result) of
            Some h \<Rightarrow> AppendHistogram sig h sv'
          | None \<Rightarrow> AppendSample sig (pt_V (sample_Point result)) sv'))"

text \<open>
  The inner loop of \<open>Next\<close> for one scanner; \<open>n\<close> counts the iterations that
  \<open>currStep < numSteps\<close> still allows. An error of \<open>selectPoints\<close> ends the pull.
\<close>

fun matrixSelector_steps :: "functionPkg \<Rightarrow> matrixSelector \<Rightarrow> nat \<Rightarrow> nat \<Rightarrow> int
    \<Rightarrow> matrixScanner \<Rightarrow> StepVector list
    \<Rightarrow> failure option \<times> matrixScanner \<times> StepVector list" where
  "matrixSelector_steps fn sel 0 currStep seriesTs series vectors = (None, series, vectors)"
| "matrixSelector_steps fn sel (Suc n) currStep seriesTs series vectors =
     (if seriesTs \<le> ms_maxt sel then
        (let vectors1 = (if length vectors \<le> currStep
                         then vectors @ [GetStepVector seriesTs] else vectors);
             maxt = seriesTs - offset sel;
             mint = maxt - selectRange sel
         in (case selectPoints (IsExtFunction fn) (ms_samples series) mint maxt
                    (previousPoints series) (funcName sel) (extLookbackDelta sel) of
               (Inl (err, prev), it') \<Rightarrow>
                 (Some err, series\<lparr>previousPoints := prev, ms_samples := it'\<rparr>, vectors1)
             | (Inr rangePoints, it') \<Rightarrow>
                 (let result = ms_call sel
                        \<lparr>fa_Labels = ms_labels series, fa_Points = rangePoints,
                         fa_StepTime = seriesTs, fa_SelectRange = selectRange sel,
                         fa_Offset = offset sel\<rparr>;
                      vectors2 =
                        (if \<not> point_eq (sample_Point result) (sample_Point (InvalidSample fn))
                         then vectors1[currStep :=
                                appendResult (ms_signature series) result (vectors1 ! currStep)]
                         else vectors1);
                      stepRange = (if selectRange sel > ms_step sel then ms_step sel
                                   else selectRange sel);
                      series' = series\<lparr>previousPoints := rangePoints,
                                       ms_samples := ReduceDelta stepRange it'\<rparr>
                  in matrixSelector_steps fn sel n (Suc currStep) (seriesTs + ms_step sel)
                       series' vectors2)))
      else (None, series, vectors))"

fun matrixSelector_scan :: "functionPkg \<Rightarrow> matrixSelector \<Rightarrow> nat \<Rightarrow> int
    \<Rightarrow> matrixScanner list \<Rightarrow> StepVector list
    \<Rightarrow> failure option \<times> matrixScanner list \<times> StepVector list" where
  "matrixSelector_scan fn sel n ts [] vectors = (None, [], vectors)"
| "matrixSelector_scan fn sel n ts (series # rest) vectors =
     (case matrixSelector_steps fn sel n 0 ts series vectors of
        (Some err, series', vectors1) \<Rightarrow> (Some err, series' # rest, vectors1)
      | (None, series', vectors1) \<Rightarrow>
          (case matrixSelector_scan fn sel n ts rest vectors1 of
             (err, rest', vectors2) \<Rightarrow> (err, series' # rest', vectors2)))"

text \<open>
  \<open>Next\<close>: the context is read once, in the \<open>select\<close> at the start. \<open>Inr None\<close> is the end
  of the stream (\<open>nil, nil\<close>).
\<close>

definition matrixSelector_Next :: "functionPkg \<Rightarrow> Context \<Rightarrow> matrixSelector
    \<Rightarrow> (failure + StepVector list option) \<times> matrixSelector" where
  "matrixSelector_Next fn ctx sel =
     (case errAtEntry ctx of
        Some err \<Rightarrow> (Inl (Error err), sel)
      | None \<Rightarrow>
          (if ms_currentStep sel > ms_maxt sel then (Inr None, sel)
           else
             (case matrixSelector_loadSeries fn ctx sel of
                (Some err, sel1) \<Rightarrow> (Inl (Error err), sel1)
              | (None, sel1) \<Rightarrow>
                  (case matrixSelector_scan fn sel1 (nat (ms_numSteps sel1))
                          (ms_currentStep sel1) (ms_scanners sel1) GetVectorBatch of
                     (Some err, scanners', vectors) \<Rightarrow>
                       (Inl err, sel1\<lparr>ms_scanners := scanners'\<rparr>)
                   | (None, scanners', vectors) \<Rightarrow>
                       (let sel2 = sel1\<lparr>ms_scanners := scanners'\<rparr>;
                            sel3 = (if ms_step sel2 = 0 then sel2\<lparr>ms_step := 1\<rparr> else sel2)
                        in (Inr (Some vectors),
                            sel3\<lparr>ms_currentStep :=
                                   ms_currentStep sel3 + ms_step sel3 * ms_numSteps sel3\<rparr>))))))"

section \<open>Notions for the properties\<close>

text \<open>
  The step times a pull visits for one series, as the header of the inner loop of
  \<open>Next\<close> gives them: at most \<open>n\<close> of them, from \<open>ts\<close> on in steps of \<open>step\<close>, as long as
  they are not after \<open>maxt\<close>.
\<close>

fun stepTimes :: "int \<Rightarrow> int \<Rightarrow> nat \<Rightarrow> int \<Rightarrow> int list" where
  "stepTimes maxt step 0 ts = []"
| "stepTimes maxt step (Suc n) ts =
     (if ts \<le> maxt then ts # stepTimes maxt step n (ts + step) else [])"

text \<open>The times of the step vectors are \<open>ts\<close>, \<open>ts + step\<close>, \<open>ts + 2 * step\<close> and so on.\<close>

definition onGrid :: "int \<Rightarrow> int \<Rightarrow> StepVector list \<Rightarrow> bool" where
  "onGrid ts step vectors \<longleftrightarrow>
     map sv_T vectors = map (\<lambda>k. ts + int k * step) [0..<length vectors]"

text \<open>
  The function of the selector gives its result the step time it was called for, unless
  the result is the invalid sample. The functions live in the \<open>function\<close> package, which
  is not among the sources.
\<close>

definition callKeepsStepTime :: "functionPkg \<Rightarrow> matrixSelector \<Rightarrow> bool" where
  "callKeepsStepTime fn sel \<longleftrightarrow>
     (\<forall>a. \<not> point_eq (sample_Point (ms_call sel a)) (sample_Point (InvalidSample fn)) \<longrightarrow>
          pt_T (sample_Point (ms_call sel a)) = fa_StepTime a)"

text \<open>
  A series of float samples as a stream, the point of a float sample, and the samples
  that do not carry the stale marker.
\<close>

definition floatSamples :: "(int \<times> float64) list \<Rightarrow> StreamSample list" where
  "floatSamples fl = map (\<lambda>s. (fst s, FloatValue (snd s))) fl"

definition samplePoint :: "int \<times> float64 \<Rightarrow> Point" where
  "samplePoint s = floatPoint (fst s) (snd s)"

definition notStale :: "(int \<times> float64) list \<Rightarrow> (int \<times> float64) list" where
  "notStale fl = filter (\<lambda>s. \<not> IsStaleNaN (snd s)) fl"

section \<open>Properties of the planner\<close>

lemma quo_nonneg: "0 \<le> a \<Longrightarrow> 0 < b \<Longrightarrow> quo a b = a div b"
  by (cases "a = 0") (simp_all add: quo_def)

lemma aligned_shape:
  assumes s: "0 < (s::int)"
  shows "(a div s - b div s) * s = (a - b) + (b mod s - a mod s)"
proof -
  have "a div s * s = a - a mod s" by (simp add: algebra_simps minus_mod_eq_mult_div)
  moreover have "b div s * s = b - b mod s" by (simp add: algebra_simps minus_mod_eq_mult_div)
  ultimately show ?thesis by (simp add: algebra_simps)
qed

lemma calculateStepAlignedStart_value:
  assumes "0 < Step opts" "Start opts \<le> End opts" "MinT e \<le> End opts"
  shows "calculateStepAlignedStart e opts =
     Some (Start opts + ((End opts - Start opts) div Step opts - (End opts - MinT e) div Step opts) * Step opts)"
  using assms by (simp add: calculateStepAlignedStart_def numSteps_def quo_nonneg)

text \<open>
  Claim C2, as the code has it. For an engine that is not skipped and starts after the
  query (\<open>MinT > Start\<close>) and a positive step, \<open>calculateStepAlignedStart\<close> returns a
  time on the step grid of the query: \<open>(remoteStart - Start) mod Step = 0\<close>, between
  \<open>Start\<close> and \<open>End\<close>, and less than one step before the engine's \<open>MinT\<close>. It is at or
  after \<open>MinT\<close> exactly when the remainder of \<open>End - Start\<close> by the step is at most the
  remainder of \<open>End - MinT\<close>; in particular whenever \<open>End\<close> lies on the step grid.
\<close>

theorem step_aligned_start:
  assumes "0 < Step opts" and "\<not> skipped opts e" and "Start opts < MinT e"
  shows "\<exists>remoteStart. calculateStepAlignedStart e opts = Some remoteStart
     \<and> (remoteStart - Start opts) mod Step opts = 0
     \<and> Start opts \<le> remoteStart \<and> remoteStart \<le> End opts
     \<and> MinT e - Step opts < remoteStart
     \<and> (MinT e \<le> remoteStart \<longleftrightarrow>
          (End opts - Start opts) mod Step opts \<le> (End opts - MinT e) mod Step opts)"
proof -
  define s where "s = Step opts"
  define a where "a = End opts - Start opts"
  define b where "b = End opts - MinT e"
  have le: "MinT e \<le> End opts" using assms(2) by (simp add: skipped_def)
  have s: "0 < s" using assms(1) by (simp add: s_def)
  have ab: "0 \<le> b" "b < a" using le assms(3) by (simp_all add: a_def b_def)
  define r where "r = Start opts + (a div s - b div s) * s"
  have val: "calculateStepAlignedStart e opts = Some r"
    using calculateStepAlignedStart_value [of opts e] assms(1,3) le
    by (simp add: r_def a_def b_def s_def)
  have shape: "r - Start opts = (a - b) + (b mod s - a mod s)"
    using aligned_shape [OF s, of a b] by (simp add: r_def)
  have diff: "a - b = MinT e - Start opts" by (simp add: a_def b_def)
  have m1: "0 \<le> a mod s" "a mod s < s" "0 \<le> b mod s" "b mod s < s" using s by simp_all
  have mono: "b div s \<le> a div s" using ab s by (simp add: zdiv_mono1)
  have "(r - Start opts) mod s = 0" by (simp add: r_def)
  moreover have "Start opts \<le> r" using mono s by (simp add: r_def)
  moreover have "r \<le> End opts"
  proof -
    have "b mod s \<le> b" using ab(1) by (rule zmod_le_nonneg_dividend)
    then have "r - Start opts \<le> a" using shape m1 by linarith
    then show ?thesis by (simp add: a_def)
  qed
  moreover have "MinT e - s < r" using shape diff m1 by linarith
  moreover have "MinT e \<le> r \<longleftrightarrow> a mod s \<le> b mod s" using shape diff by linarith
  ultimately have "calculateStepAlignedStart e opts = Some r
     \<and> (r - Start opts) mod s = 0 \<and> Start opts \<le> r \<and> r \<le> End opts \<and> MinT e - s < r
     \<and> (MinT e \<le> r \<longleftrightarrow> a mod s \<le> b mod s)"
    using val by (intro conjI)
  then show ?thesis unfolding a_def b_def s_def by (rule exI)
qed

theorem step_aligned_start_witness:
  "\<exists>remoteStart. calculateStepAlignedStart \<lparr>MinT = 75, MaxT = 1000, LabelSets = []\<rparr>
       \<lparr>Start = 0, End = 600, Step = 30, LookbackDelta = 0\<rparr> = Some remoteStart
     \<and> remoteStart mod 30 = 0 \<and> 0 \<le> remoteStart \<and> remoteStart \<le> 600 \<and> 45 < remoteStart
     \<and> 75 \<le> remoteStart"
  using step_aligned_start [of "\<lparr>Start = 0, End = 600, Step = 30, LookbackDelta = 0\<rparr>"
      "\<lparr>MinT = 75, MaxT = 1000, LabelSets = []\<rparr>"]
  by (simp add: skipped_def)

text \<open>
  The bound \<open>remoteStart \<ge> MinT\<close> of claim C2 fails when \<open>End\<close> is off the grid: with
  \<open>Start = 0\<close>, \<open>End = 100\<close>, \<open>Step = 30\<close> and \<open>MinT = 5\<close> both step counts are 4, no
  step is skipped and the remote start is 0.
\<close>

theorem step_aligned_start_counterexample:
  "\<not> skipped \<lparr>Start = 0, End = 100, Step = 30, LookbackDelta = 0\<rparr>
        \<lparr>MinT = 5, MaxT = 1000, LabelSets = []\<rparr>
   \<and> Start \<lparr>Start = 0, End = 100, Step = 30, LookbackDelta = 0\<rparr>
        < MinT \<lparr>MinT = 5, MaxT = 1000, LabelSets = []\<rparr>
   \<and> calculateStepAlignedStart \<lparr>MinT = 5, MaxT = 1000, LabelSets = []\<rparr>
        \<lparr>Start = 0, End = 100, Step = 30, LookbackDelta = 0\<rparr> = Some 0
   \<and> \<not> (MinT \<lparr>MinT = 5, MaxT = 1000, LabelSets = []\<rparr> \<le> 0)"
  by (simp add: skipped_def calculateStepAlignedStart_def numSteps_def quo_def)

lemma remoteQueries_total:
  "Step opts \<noteq> 0 \<Longrightarrow> \<exists>rs. remoteQueries str expr opts engines = Some rs"
  by (induction engines)
     (auto simp: calculateStepAlignedStart_def numSteps_def split: option.splits)

lemma remoteQueries_Query:
  "remoteQueries str expr opts engines = Some rs \<Longrightarrow>
     map Query rs = map (\<lambda>e. str expr) rs
     \<and> map Engine rs = filter (\<lambda>e. \<not> skipped opts e) engines"
  by (induction engines arbitrary: rs)
     (auto simp: skipped_def split: option.splits if_splits)

lemma remoteQueries_skipped:
  "\<forall>e \<in> set engines. skipped opts e \<Longrightarrow> remoteQueries str expr opts engines = Some []"
  by (induction engines) (auto simp: skipped_def)

text \<open>
  Claim C4. On a distributive aggregation the callback of \<open>Optimize\<close> puts in its place
  an aggregation with the same operator, \<open>COUNT\<close> turned into \<open>SUM\<close>, the same parameter,
  grouping, \<open>Without\<close> flag and position, whose argument is the \<open>Deduplicate\<close> that
  \<open>distributeQuery\<close> builds from the remote aggregation: one \<open>RemoteExecution\<close> for every
  engine that is not skipped, in order, each with the text of the remote aggregation as
  its query. The traversal stops there. (A zero step would make \<open>numSteps\<close> divide by
  zero.)
\<close>

theorem distributed_aggregation_node:
  assumes "isDistributive (Some (AggregateExpr op arg param grouping without pos))"
    and "Step opts \<noteq> 0"
  shows "\<exists>d. distributeQuery str
            (newRemoteAggregation (AggregateExpr op arg param grouping without pos) engines)
            engines opts = Some d
     \<and> optimizeVisit str engines opts parent (AggregateExpr op arg param grouping without pos)
         = Some (AggregateExpr (if op = COUNT then SUM_op else op) (DeduplicateExpr d)
                   param grouping without pos, True)
     \<and> map Query (Expressions d) =
         map (\<lambda>r. str (newRemoteAggregation (AggregateExpr op arg param grouping without pos)
                engines)) (Expressions d)
     \<and> map Engine (Expressions d) = filter (\<lambda>e. \<not> skipped opts e) engines"
proof -
  let ?agg = "AggregateExpr op arg param grouping without pos"
  obtain rs where rs: "remoteQueries str (newRemoteAggregation ?agg engines) opts engines = Some rs"
    using remoteQueries_total [OF assms(2)] by blast
  have d: "distributeQuery str (newRemoteAggregation ?agg engines) engines opts
      = Some \<lparr>Expressions = rs\<rparr>"
    by (simp add: distributeQuery_def rs)
  have v: "optimizeVisit str engines opts parent ?agg
      = Some (AggregateExpr (if op = COUNT then SUM_op else op)
                (DeduplicateExpr \<lparr>Expressions = rs\<rparr>) param grouping without pos, True)"
    using assms(1) by (simp add: optimizeVisit_def d)
  show ?thesis using d v remoteQueries_Query [OF rs] by simp
qed

theorem distributed_aggregation_node_witness:
  "\<exists>d. distributeQuery (\<lambda>e. ''q'')
            (newRemoteAggregation (AggregateExpr COUNT (VectorSelector ''up'' []) None [''job''] False (0, 0))
               [\<lparr>MinT = 0, MaxT = 100, LabelSets = [[(''cluster'', ''a'')]]\<rparr>])
            [\<lparr>MinT = 0, MaxT = 100, LabelSets = [[(''cluster'', ''a'')]]\<rparr>]
            \<lparr>Start = 0, End = 60, Step = 30, LookbackDelta = 5\<rparr> = Some d
     \<and> optimizeVisit (\<lambda>e. ''q'') [\<lparr>MinT = 0, MaxT = 100, LabelSets = [[(''cluster'', ''a'')]]\<rparr>]
           \<lparr>Start = 0, End = 60, Step = 30, LookbackDelta = 5\<rparr> None
           (AggregateExpr COUNT (VectorSelector ''up'' []) None [''job''] False (0, 0))
         = Some (AggregateExpr SUM_op (DeduplicateExpr d) None [''job''] False (0, 0), True)
     \<and> map Query (Expressions d) = map (\<lambda>r. ''q'') (Expressions d)
     \<and> map Engine (Expressions d) = [\<lparr>MinT = 0, MaxT = 100, LabelSets = [[(''cluster'', ''a'')]]\<rparr>]"
  using distributed_aggregation_node [of COUNT "VectorSelector ''up'' []" None "[''job'']" False "(0, 0)"
      "\<lparr>Start = 0, End = 60, Step = 30, LookbackDelta = 5\<rparr>" "\<lambda>e. ''q''"
      "[\<lparr>MinT = 0, MaxT = 100, LabelSets = [[(''cluster'', ''a'')]]\<rparr>]" None]
  by (simp add: distributiveAggregations_def skipped_def)

text \<open>
  Claim C10. When every engine is skipped, \<open>distributeQuery\<close> returns a \<open>Deduplicate\<close>
  with no expressions and does not fail, and the callback of \<open>Optimize\<close> installs it: as
  the node itself where it distributes a node that is no aggregation, and as the argument
  of the local aggregation where it distributes an aggregation.
\<close>

theorem all_engines_skipped:
  assumes "\<forall>e \<in> set engines. skipped opts e"
  shows "distributeQuery str expr engines opts = Some \<lparr>Expressions = []\<rparr>
     \<and> (isDistributive (Some current) \<and> \<not> isAggregateExpr current \<and> \<not> isDistributive parent \<longrightarrow>
          optimizeVisit str engines opts parent current
            = Some (DeduplicateExpr \<lparr>Expressions = []\<rparr>, True))
     \<and> (isDistributive (Some (AggregateExpr op arg param grouping without pos)) \<longrightarrow>
          optimizeVisit str engines opts parent (AggregateExpr op arg param grouping without pos)
            = Some (AggregateExpr (if op = COUNT then SUM_op else op)
                      (DeduplicateExpr \<lparr>Expressions = []\<rparr>) param grouping without pos, True))"
proof -
  have d: "distributeQuery str x engines opts = Some \<lparr>Expressions = []\<rparr>" for x
    using remoteQueries_skipped [OF assms] by (simp add: distributeQuery_def)
  have "optimizeVisit str engines opts parent current
            = Some (DeduplicateExpr \<lparr>Expressions = []\<rparr>, True)"
    if "isDistributive (Some current)" "\<not> isAggregateExpr current" "\<not> isDistributive parent"
    using that by (cases current) (simp_all add: optimizeVisit_def d)
  moreover have "optimizeVisit str engines opts parent (AggregateExpr op arg param grouping without pos)
            = Some (AggregateExpr (if op = COUNT then SUM_op else op)
                      (DeduplicateExpr \<lparr>Expressions = []\<rparr>) param grouping without pos, True)"
    if "isDistributive (Some (AggregateExpr op arg param grouping without pos))"
    using that by (simp add: optimizeVisit_def d)
  ultimately show ?thesis using d by blast
qed

theorem all_engines_skipped_witness:
  "distributeQuery (\<lambda>e. ''q'') (VectorSelector ''up'' [])
       [\<lparr>MinT = 0, MaxT = 10, LabelSets = []\<rparr>, \<lparr>MinT = 900, MaxT = 1000, LabelSets = []\<rparr>]
       \<lparr>Start = 100, End = 200, Step = 10, LookbackDelta = 5\<rparr> = Some \<lparr>Expressions = []\<rparr>
   \<and> optimizeVisit (\<lambda>e. ''q'')
       [\<lparr>MinT = 0, MaxT = 10, LabelSets = []\<rparr>, \<lparr>MinT = 900, MaxT = 1000, LabelSets = []\<rparr>]
       \<lparr>Start = 100, End = 200, Step = 10, LookbackDelta = 5\<rparr> None (VectorSelector ''up'' [])
       = Some (DeduplicateExpr \<lparr>Expressions = []\<rparr>, True)
   \<and> optimizeVisit (\<lambda>e. ''q'')
       [\<lparr>MinT = 0, MaxT = 10, LabelSets = []\<rparr>, \<lparr>MinT = 900, MaxT = 1000, LabelSets = []\<rparr>]
       \<lparr>Start = 100, End = 200, Step = 10, LookbackDelta = 5\<rparr> None
       (AggregateExpr COUNT (VectorSelector ''up'' []) None [''job''] False (0, 0))
       = Some (AggregateExpr SUM_op (DeduplicateExpr \<lparr>Expressions = []\<rparr>) None [''job''] False (0, 0), True)"
  using all_engines_skipped [of
      "[\<lparr>MinT = 0, MaxT = 10, LabelSets = []\<rparr>, \<lparr>MinT = 900, MaxT = 1000, LabelSets = []\<rparr>]"
      "\<lparr>Start = 100, End = 200, Step = 10, LookbackDelta = 5\<rparr>" "\<lambda>e. ''q''"
      "VectorSelector ''up'' []" "VectorSelector ''up'' []" None
      COUNT "VectorSelector ''up'' []" None "[''job'']" False "(0, 0)"]
  by (simp add: skipped_def distributiveAggregations_def)

section \<open>Properties of the vector selector\<close>

text \<open>
  Claim C6 says that \<open>selectPoint ts lookbackDelta\<close> returns the most recent sample at
  or before \<open>ts\<close>. On a scanner that has answered an earlier step it can return a
  sample after \<open>ts\<close>: \<open>Seek\<close> first saves the sample the iterator stands on as the
  previous one and then moves on. For samples at 0, 100 and 200 and a lookback of 50, the
  step at 10 is answered with the sample at 0, and the step at 20 with the sample at
  100.
\<close>

theorem selectPoint_returns_later_sample:
  "fst (selectPoint 10 50
          (newVectorScanner \<lparr>ss_labels = [], ss_signature = 1,
             ss_samples = [(0, 0x3FF0000000000000), (100, 0x4000000000000000),
                           (200, 0x4008000000000000)]\<rparr>))
     = Some (0, 0x3FF0000000000000)
   \<and> fst (selectPoint 20 50
          (snd (selectPoint 10 50
             (newVectorScanner \<lparr>ss_labels = [], ss_signature = 1,
                ss_samples = [(0, 0x3FF0000000000000), (100, 0x4000000000000000),
                              (200, 0x4008000000000000)]\<rparr>))))
     = Some (100, 0x4000000000000000)"
  by (simp add: newVectorScanner_def newIterator_def selectPoint_def vectorScanner_At_def
      IsStaleNaN_def StaleNaN_def Let_def)

text \<open>So the second step is not answered with the sample at 0, the latest one before it.\<close>

theorem selectPoint_returns_later_sample_witness:
  "fst (selectPoint 20 50
          (snd (selectPoint 10 50
             (newVectorScanner \<lparr>ss_labels = [], ss_signature = 1,
                ss_samples = [(0, 0x3FF0000000000000), (100, 0x4000000000000000),
                              (200, 0x4008000000000000)]\<rparr>))))
     \<noteq> Some (0, 0x3FF0000000000000)"
  using selectPoint_returns_later_sample by simp

section \<open>Properties of the matrix selector\<close>

text \<open>
  Claim C1 says that \<open>selectPoints\<close> with the points of the previous step gives what a
  fresh evaluation gives. For an extended range function it does not. With samples at
  10 and 11, a range of 10, a step of 10 and a lookback of 5, the window \<open>[0, 10]\<close> holds
  the sample at 10. For the window \<open>[10, 20]\<close> the kept point raises the lower bound to
  11, the sample at 11 is not after that bound and overwrites the kept point, and the
  result is the sample at 11 alone; a fresh evaluation of the same window gives both
  samples.
\<close>

theorem selectPoints_reuse_differs:
  "fst (selectPoints (\<lambda>n. n = ''xrate'')
          (NewBufferIterator (newSeriesIterator
             [(10, FloatValue 0x3FF0000000000000), (11, FloatValue 0x4000000000000000)] None) 15)
          0 10 [] ''xrate'' 5)
     = Inr [floatPoint 10 0x3FF0000000000000]
   \<and> fst (selectPoints (\<lambda>n. n = ''xrate'')
          (ReduceDelta 10 (snd (selectPoints (\<lambda>n. n = ''xrate'')
             (NewBufferIterator (newSeriesIterator
                [(10, FloatValue 0x3FF0000000000000), (11, FloatValue 0x4000000000000000)] None) 15)
             0 10 [] ''xrate'' 5)))
          10 20 [floatPoint 10 0x3FF0000000000000] ''xrate'' 5)
     = Inr [floatPoint 11 0x4000000000000000]
   \<and> fst (selectPoints (\<lambda>n. n = ''xrate'')
          (NewBufferIterator (newSeriesIterator
             [(10, FloatValue 0x3FF0000000000000), (11, FloatValue 0x4000000000000000)] None) 15)
          10 20 [] ''xrate'' 5)
     = Inr [floatPoint 10 0x3FF0000000000000, floatPoint 11 0x4000000000000000]"
  by (simp add: selectPoints_def selectPoints_reuse_def selectPoints_drop_def selectPoints_sought_def
      NewBufferIterator_def newSeriesIterator_def si_Next_def si_moveTo_def si_Seek_def si_At_def
      BufferedSeriesIterator_Seek_def BufferedSeriesIterator_Next_def BufferedSeriesIterator_Err_def
      Buffer_def ReduceDelta_def sampleRing_add_def MinInt64_def
      IsStaleNaN_def StaleNaN_def Let_def floatPoint_def)

lemma zero_not_stale: "\<not> IsStaleNaN 0"
  by (simp add: IsStaleNaN_def StaleNaN_def)

lemma noStale_Nil: "noStale []"
  by (simp add: noStale_def)

lemma noStale_snoc: "noStale ps \<Longrightarrow> \<not> IsStaleNaN (pt_V p) \<Longrightarrow> noStale (ps @ [p])"
  by (simp add: noStale_def)

lemma noStale_update: "noStale ps \<Longrightarrow> \<not> IsStaleNaN (pt_V p) \<Longrightarrow> noStale (ps[i := p])"
  unfolding noStale_def using set_update_subset_insert [of ps i p] by auto

lemma noStale_drop: "noStale ps \<Longrightarrow> noStale (List.drop n ps)"
  unfolding noStale_def by (auto dest: in_set_dropD)

lemma selectPoints_buffer_not_stale:
  "selectPoints_buffer extRange mint buf out app = Some out' \<Longrightarrow> noStale out \<Longrightarrow> noStale out'"
proof (induction buf arbitrary: out app)
  case Nil
  then show ?case by simp
next
  case (Cons s buf)
  obtain t x where s: "s = (t, x)" by (cases s)
  show ?case
  proof (cases x)
    case (FloatValue v)
    show ?thesis
    proof (cases "IsStaleNaN v")
      case True
      then have "selectPoints_buffer extRange mint buf out app = Some out'"
        using Cons.prems(1) s FloatValue by simp
      then show ?thesis using Cons.IH Cons.prems(2) by blast
    next
      case False
      have p: "\<not> IsStaleNaN (pt_V (floatPoint t v))" using False by (simp add: floatPoint_def)
      have "\<exists>out0 app0. selectPoints_buffer extRange mint buf out0 app0 = Some out' \<and> noStale out0"
      proof (cases extRange)
        case False
        then have "selectPoints_buffer extRange mint buf
              (if t \<ge> mint then out @ [floatPoint t v] else out) app = Some out'"
          using Cons.prems(1) s FloatValue \<open>\<not> IsStaleNaN v\<close> by simp
        moreover have "noStale (if t \<ge> mint then out @ [floatPoint t v] else out)"
          using Cons.prems(2) p by (simp add: noStale_snoc)
        ultimately show ?thesis by blast
      next
        case True
        show ?thesis
        proof (cases "t > mint \<or> \<not> app")
          case True
          then have "selectPoints_buffer extRange mint buf (out @ [floatPoint t v]) True = Some out'"
            using Cons.prems(1) s FloatValue \<open>\<not> IsStaleNaN v\<close> \<open>extRange\<close> by simp
          moreover have "noStale (out @ [floatPoint t v])"
            using Cons.prems(2) p by (simp add: noStale_snoc)
          ultimately show ?thesis by blast
        next
          case False
          then have "out \<noteq> [] \<and> selectPoints_buffer extRange mint buf
                (out[length out - 1 := floatPoint t v]) app = Some out'"
            using Cons.prems(1) s FloatValue \<open>\<not> IsStaleNaN v\<close> \<open>extRange\<close>
            by (simp split: if_splits)
          moreover have "noStale (out[length out - 1 := floatPoint t v])"
            using Cons.prems(2) p by (rule noStale_update)
          ultimately show ?thesis by blast
        qed
      qed
      then show ?thesis using Cons.IH by blast
    qed
  next
    case (HistogramValue h)
    have "selectPoints_buffer extRange mint buf
            (if t \<ge> mint then out @ [histogramPoint t (Some h)] else out) app = Some out'"
      using Cons.prems(1) s HistogramValue by simp
    moreover have "noStale (if t \<ge> mint then out @ [histogramPoint t (Some h)] else out)"
      using Cons.prems(2) by (simp add: noStale_snoc histogramPoint_def zero_not_stale)
    ultimately show ?thesis using Cons.IH by blast
  next
    case (FloatHistogramValue h)
    have "selectPoints_buffer extRange mint buf
            (if t \<ge> mint then out @ [histogramPoint t (Some h)] else out) app = Some out'"
      using Cons.prems(1) s FloatHistogramValue by simp
    moreover have "noStale (if t \<ge> mint then out @ [histogramPoint t (Some h)] else out)"
      using Cons.prems(2) by (simp add: noStale_snoc histogramPoint_def zero_not_stale)
    ultimately show ?thesis using Cons.IH by blast
  qed
qed

lemma selectPoints_sought_not_stale:
  "noStale out \<Longrightarrow> noStale (selectPoints_sought vt it maxt out)"
proof -
  assume n: "noStale out"
  obtain t x where s: "si_At (bsi_it it) = (t, x)" by (cases "si_At (bsi_it it)")
  show ?thesis
    by (cases vt; cases x)
       (simp_all add: selectPoints_sought_def s n noStale_snoc floatPoint_def histogramPoint_def
          zero_not_stale)
qed

lemma selectPoints_reuse_not_stale:
  "noStale out \<Longrightarrow> noStale (fst (selectPoints_reuse extRange mint extMint out))"
  by (simp add: selectPoints_reuse_def Let_def noStale_drop noStale_Nil)

lemma selectPoints_result:
  assumes "fst (selectPoints isExt it mint maxt out functionName lookback) = Inr points"
  shows "\<exists>extMint mint1 out2.
      selectPoints_buffer (isExt functionName) mint1
         (Buffer (snd (BufferedSeriesIterator_Seek maxt it)))
         (fst (selectPoints_reuse (isExt functionName) mint extMint out))
         (fst (selectPoints_reuse (isExt functionName) mint extMint out) \<noteq> []) = Some out2
      \<and> points = selectPoints_sought (fst (BufferedSeriesIterator_Seek maxt it))
                   (snd (BufferedSeriesIterator_Seek maxt it)) maxt out2"
proof -
  obtain vt it' where seek: "BufferedSeriesIterator_Seek maxt it = (vt, it')"
    by (cases "BufferedSeriesIterator_Seek maxt it")
  obtain out1 mint1 copied where
    reuse: "selectPoints_reuse (isExt functionName) mint
       (if isExt functionName then mint - lookback else 0) out = (out1, mint1, copied)"
    by (cases "selectPoints_reuse (isExt functionName) mint
       (if isExt functionName then mint - lookback else 0) out")
  have "\<exists>out2. selectPoints_buffer (isExt functionName) mint1 (Buffer it') out1 (out1 \<noteq> [])
        = Some out2 \<and> points = selectPoints_sought vt it' maxt out2"
    using assms unfolding selectPoints_def Let_def seek reuse prod.case
    by (cases "selectPoints_buffer (isExt functionName) mint1 (Buffer it') out1 (out1 \<noteq> [])")
       (simp_all split: if_splits)
  then show ?thesis using reuse seek by (metis fst_conv snd_conv)
qed

text \<open>
  Claim C9. \<open>selectPoints\<close> adds no point whose value is the stale marker: the loop
  over the buffer skips stale floats, the sample at \<open>maxt\<close> is taken only when it is not
  stale, and a histogram point has the value 0. So when the points kept from the
  previous step have no stale value, the points returned have none. The previous points
  of a scanner are empty at first and then always a result of \<open>selectPoints\<close>.
\<close>

theorem selectPoints_no_stale_points:
  assumes "noStale out"
    and "fst (selectPoints isExt it mint maxt out functionName lookback) = Inr points"
  shows "noStale points"
proof -
  from selectPoints_result [OF assms(2)] obtain extMint mint1 out2 where
    buf: "selectPoints_buffer (isExt functionName) mint1
         (Buffer (snd (BufferedSeriesIterator_Seek maxt it)))
         (fst (selectPoints_reuse (isExt functionName) mint extMint out))
         (fst (selectPoints_reuse (isExt functionName) mint extMint out) \<noteq> []) = Some out2"
    and res: "points = selectPoints_sought (fst (BufferedSeriesIterator_Seek maxt it))
                   (snd (BufferedSeriesIterator_Seek maxt it)) maxt out2"
    by blast
  have "noStale (fst (selectPoints_reuse (isExt functionName) mint extMint out))"
    using assms(1) by (rule selectPoints_reuse_not_stale)
  then have "noStale out2" using selectPoints_buffer_not_stale [OF buf] by blast
  then show ?thesis unfolding res by (rule selectPoints_sought_not_stale)
qed

theorem selectPoints_no_stale_points_witness:
  "fst (selectPoints (\<lambda>n. n = ''xrate'')
          (NewBufferIterator (newSeriesIterator
             [(5, FloatValue 0x7ff0000000000002), (7, FloatValue 0x3FF0000000000000),
              (10, FloatValue 0x7ff0000000000002)] None) 10)
          0 10 [] ''rate'' 0)
     = Inr [floatPoint 7 0x3FF0000000000000]
   \<and> noStale []
   \<and> \<not> IsStaleNaN (pt_V (floatPoint 7 0x3FF0000000000000))"
proof -
  have e: "fst (selectPoints (\<lambda>n. n = ''xrate'')
          (NewBufferIterator (newSeriesIterator
             [(5, FloatValue 0x7ff0000000000002), (7, FloatValue 0x3FF0000000000000),
              (10, FloatValue 0x7ff0000000000002)] None) 10)
          0 10 [] ''rate'' 0)
     = Inr [floatPoint 7 0x3FF0000000000000]"
    by (simp add: selectPoints_def selectPoints_reuse_def selectPoints_drop_def selectPoints_sought_def
      NewBufferIterator_def newSeriesIterator_def si_Next_def si_moveTo_def si_Seek_def si_At_def
      BufferedSeriesIterator_Seek_def BufferedSeriesIterator_Next_def BufferedSeriesIterator_Err_def
      Buffer_def ReduceDelta_def sampleRing_add_def MinInt64_def
      IsStaleNaN_def StaleNaN_def Let_def floatPoint_def)
  have "noStale [floatPoint 7 0x3FF0000000000000]"
    by (rule selectPoints_no_stale_points [OF noStale_Nil e])
  then show ?thesis using e by (simp add: noStale_def)
qed

section \<open>The step times of a batch\<close>

lemma stepTimes_progression:
  "stepTimes maxt step n ts = map (\<lambda>k. ts + int k * step) [0..<length (stepTimes maxt step n ts)]"
proof (induction n arbitrary: ts)
  case 0
  show ?case by simp
next
  case (Suc n)
  show ?case
  proof (cases "ts \<le> maxt")
    case True
    let ?m = "length (stepTimes maxt step n (ts + step))"
    have "map (\<lambda>k. ts + int k * step) [0..<Suc ?m]
        = ts # map (\<lambda>k. ts + int (Suc k) * step) [0..<?m]"
      by (simp only: upt_conv_Cons [of 0 "Suc ?m"] map_Suc_upt [symmetric]) (simp add: comp_def)
    also have "map (\<lambda>k. ts + int (Suc k) * step) [0..<?m]
        = map (\<lambda>k. (ts + step) + int k * step) [0..<?m]"
      by (simp add: algebra_simps)
    also have "\<dots> = stepTimes maxt step n (ts + step)" using Suc.IH [of "ts + step"] by simp
    finally show ?thesis using True by simp
  next
    case False
    then show ?thesis by simp
  qed
qed

lemma stepTimes_bounded: "t \<in> set (stepTimes maxt step n ts) \<Longrightarrow> t \<le> maxt"
  by (induction n arbitrary: ts) (auto split: if_splits)

lemma stepTimes_length:
  "0 < step \<Longrightarrow> length (stepTimes maxt step n ts) = min n (nat ((maxt - ts) div step + 1))"
proof (induction n arbitrary: ts)
  case 0
  show ?case by simp
next
  case (Suc n)
  show ?case
  proof (cases "ts \<le> maxt")
    case True
    have d: "(maxt - (ts + step)) div step = (maxt - ts) div step - 1"
    proof -
      have "(maxt - (ts + step) + step) div step = (maxt - (ts + step)) div step + 1"
        using Suc.prems by (intro div_add_self2) simp
      then show ?thesis by (simp add: algebra_simps)
    qed
    have nn: "0 \<le> (maxt - ts) div step" using True Suc.prems by (simp add: pos_imp_zdiv_nonneg_iff)
    have "length (stepTimes maxt step (Suc n) ts) = Suc (min n (nat ((maxt - ts) div step)))"
      using True Suc.IH [OF Suc.prems, of "ts + step"] d by simp
    also have "\<dots> = min (Suc n) (nat ((maxt - ts) div step + 1))"
      using nn by (simp add: nat_add_distrib)
    finally show ?thesis .
  next
    case False
    then have "(maxt - ts) div step < 0" using Suc.prems by (intro div_neg_pos_less0) simp_all
    then show ?thesis using False by simp
  qed
qed

lemma onGrid_Nil: "onGrid ts step []"
  by (simp add: onGrid_def)

lemma onGrid_snoc:
  "onGrid ts step vectors \<Longrightarrow> sv_T v = ts + int (length vectors) * step \<Longrightarrow>
     onGrid ts step (vectors @ [v])"
  by (simp add: onGrid_def)

lemma onGrid_nth:
  "onGrid ts step vectors \<Longrightarrow> k < length vectors \<Longrightarrow> sv_T (vectors ! k) = ts + int k * step"
proof -
  assume g: "onGrid ts step vectors" and k: "k < length vectors"
  have "sv_T (vectors ! k) = map sv_T vectors ! k" using k by simp
  also have "\<dots> = map (\<lambda>k. ts + int k * step) [0..<length vectors] ! k"
    using g by (simp add: onGrid_def)
  also have "\<dots> = ts + int k * step" using k by simp
  finally show ?thesis .
qed

lemma onGrid_update:
  "onGrid ts step vectors \<Longrightarrow> k < length vectors \<Longrightarrow> sv_T v = ts + int k * step \<Longrightarrow>
     onGrid ts step (vectors[k := v])"
proof -
  assume g: "onGrid ts step vectors" and k: "k < length vectors" and v: "sv_T v = ts + int k * step"
  have "map sv_T (vectors[k := v]) = (map sv_T vectors)[k := sv_T v]" by (simp add: map_update)
  also have "\<dots> = (map sv_T vectors)[k := map sv_T vectors ! k]"
    using onGrid_nth [OF g k] v k by simp
  also have "\<dots> = map sv_T vectors" by simp
  finally show ?thesis using g by (simp add: onGrid_def)
qed

lemma vectorSelector_steps_grid:
  assumes "onGrid ts0 step vectors" and "currStep \<le> length vectors"
    and "seriesTs = ts0 + int currStep * step"
  shows "onGrid ts0 step
           (snd (vectorSelector_steps maxt step lookback n currStep seriesTs series vectors))
     \<and> length (snd (vectorSelector_steps maxt step lookback n currStep seriesTs series vectors))
        = max (length vectors) (currStep + length (stepTimes maxt step n seriesTs))"
  using assms
proof (induction n arbitrary: currStep seriesTs series vectors)
  case 0
  then show ?case by simp
next
  case (Suc n)
  show ?case
  proof (cases "seriesTs \<le> maxt")
    case False
    then show ?thesis using Suc.prems by simp
  next
    case True
    define vectors1 where "vectors1 =
      (if length vectors \<le> currStep then vectors @ [GetStepVector seriesTs] else vectors)"
    obtain r series' where sp: "selectPoint seriesTs lookback series = (r, series')"
      by (cases "selectPoint seriesTs lookback series")
    define vectors2 where "vectors2 =
      (case r of None \<Rightarrow> vectors1
       | Some (t, v) \<Rightarrow> vectors1[currStep :=
            AppendSample (vs_signature series') v (vectors1 ! currStep)])"
    have g1: "onGrid ts0 step vectors1"
      using Suc.prems by (auto simp: vectors1_def GetStepVector_def intro!: onGrid_snoc)
    have l1: "currStep < length vectors1" "length vectors1 = max (length vectors) (Suc currStep)"
      using Suc.prems(2) by (auto simp: vectors1_def)
    have g2: "onGrid ts0 step vectors2"
    proof (cases r)
      case None
      then show ?thesis using g1 by (simp add: vectors2_def)
    next
      case (Some tv)
      obtain t v where tv: "tv = (t, v)" by (cases tv)
      have "sv_T (AppendSample (vs_signature series') v (vectors1 ! currStep))
          = ts0 + int currStep * step"
        using onGrid_nth [OF g1 l1(1)] by (simp add: AppendSample_def)
      then show ?thesis using Some tv g1 l1(1) by (simp add: vectors2_def onGrid_update)
    qed
    have l2: "length vectors2 = length vectors1"
      by (cases r) (auto simp: vectors2_def)
    have unfold: "vectorSelector_steps maxt step lookback (Suc n) currStep seriesTs series vectors
        = vectorSelector_steps maxt step lookback n (Suc currStep) (seriesTs + step) series' vectors2"
      unfolding vectors2_def vectors1_def using True by (simp add: sp Let_def)
    have ih: "onGrid ts0 step
           (snd (vectorSelector_steps maxt step lookback n (Suc currStep) (seriesTs + step) series' vectors2))
     \<and> length (snd (vectorSelector_steps maxt step lookback n (Suc currStep) (seriesTs + step) series' vectors2))
        = max (length vectors2) (Suc currStep + length (stepTimes maxt step n (seriesTs + step)))"
      by (rule Suc.IH [OF g2]) (use l1 l2 Suc.prems(3) in \<open>simp_all add: algebra_simps\<close>)
    show ?thesis unfolding unfold using ih True l1 l2 by auto
  qed
qed

lemma vectorSelector_scan_grid:
  assumes "onGrid ts step vectors"
  shows "onGrid ts step (snd (vectorSelector_scan maxt step lookback n ts scanners vectors))
     \<and> length (snd (vectorSelector_scan maxt step lookback n ts scanners vectors))
        = (if scanners = [] then length vectors
           else max (length vectors) (length (stepTimes maxt step n ts)))
     \<and> (fst (vectorSelector_scan maxt step lookback n ts scanners vectors) = [] \<longleftrightarrow> scanners = [])"
  using assms
proof (induction scanners arbitrary: vectors)
  case Nil
  then show ?case by simp
next
  case (Cons series rest)
  obtain series' vectors1 where
    st: "vectorSelector_steps maxt step lookback n 0 ts series vectors = (series', vectors1)"
    by (cases "vectorSelector_steps maxt step lookback n 0 ts series vectors")
  have s1: "onGrid ts step vectors1
      \<and> length vectors1 = max (length vectors) (0 + length (stepTimes maxt step n ts))"
    using vectorSelector_steps_grid [OF Cons.prems, of 0 ts maxt lookback n series] st by simp
  obtain rest' vectors2 where
    sc: "vectorSelector_scan maxt step lookback n ts rest vectors1 = (rest', vectors2)"
    by (cases "vectorSelector_scan maxt step lookback n ts rest vectors1")
  have s2: "onGrid ts step vectors2
      \<and> length vectors2 = (if rest = [] then length vectors1
           else max (length vectors1) (length (stepTimes maxt step n ts)))"
    using Cons.IH [of vectors1] s1 sc by simp
  have "vectorSelector_scan maxt step lookback n ts (series # rest) vectors
      = (series' # rest', vectors2)"
    by (simp add: st sc)
  then show ?case using s1 s2 by auto
qed

lemma vectorSelector_Next_times:
  assumes "vectorSelector_Next ctx sel = (Inr (Some batch), sel')"
  shows "map sv_T batch =
       (if vs_scanners sel' = [] then []
        else stepTimes (vs_maxt sel) (if vs_step sel = 0 then 1 else vs_step sel)
               (nat (min (stepsBatch sel)
                      (if vs_step sel \<noteq> 0 then quo (vs_maxt sel - vs_mint sel) (vs_step sel) + 1 else 1)))
               (vs_currentStep sel))"
proof -
  from assms have le: "\<not> vs_currentStep sel > vs_maxt sel"
    by (auto simp: vectorSelector_Next_def)
  obtain sel1 where ld: "vectorSelector_loadSeries ctx sel = (None, sel1)"
    using assms le by (cases "vectorSelector_loadSeries ctx sel"; cases "fst (vectorSelector_loadSeries ctx sel)")
       (auto simp: vectorSelector_Next_def)
  have same: "vs_maxt sel1 = vs_maxt sel" "vs_mint sel1 = vs_mint sel" "vs_step sel1 = vs_step sel"
     "vs_currentStep sel1 = vs_currentStep sel" "stepsBatch sel1 = stepsBatch sel"
     "lookbackDelta sel1 = lookbackDelta sel"
    using ld by (auto simp: vectorSelector_loadSeries_def split: if_splits sum.splits)
  define step' where "step' = (if vs_step sel = 0 then 1 else vs_step sel)"
  define n where "n = nat (min (stepsBatch sel)
      (if vs_step sel \<noteq> 0 then quo (vs_maxt sel - vs_mint sel) (vs_step sel) + 1 else 1))"
  obtain scanners' vectors where
    sc: "vectorSelector_scan (vs_maxt sel) step' (lookbackDelta sel) n (vs_currentStep sel)
           (vs_scanners sel1) [] = (scanners', vectors)"
    by (cases "vectorSelector_scan (vs_maxt sel) step' (lookbackDelta sel) n (vs_currentStep sel)
           (vs_scanners sel1) []")
  have res: "batch = vectors" "vs_scanners sel' = scanners'"
    using assms le ld same sc
    by (auto simp: vectorSelector_Next_def Let_def GetVectorBatch_def step'_def n_def
        split: if_splits)
  have g: "onGrid (vs_currentStep sel) step' vectors
     \<and> length vectors = (if vs_scanners sel1 = [] then length ([]::StepVector list)
           else max (length ([]::StepVector list))
                  (length (stepTimes (vs_maxt sel) step' n (vs_currentStep sel))))
     \<and> (scanners' = [] \<longleftrightarrow> vs_scanners sel1 = [])"
    using vectorSelector_scan_grid [OF onGrid_Nil, of "vs_currentStep sel" step' "vs_maxt sel"
        "lookbackDelta sel" n "vs_scanners sel1"] sc by simp
  show ?thesis
  proof (cases "scanners' = []")
    case True
    then show ?thesis using g res by simp
  next
    case False
    then have "length vectors = length (stepTimes (vs_maxt sel) step' n (vs_currentStep sel))"
      using g by simp
    moreover have "map sv_T vectors
        = map (\<lambda>k. vs_currentStep sel + int k * step') [0..<length vectors]"
      using g by (simp add: onGrid_def)
    ultimately have "map sv_T vectors = stepTimes (vs_maxt sel) step' n (vs_currentStep sel)"
      using stepTimes_progression [of "vs_maxt sel" step' n "vs_currentStep sel"] by simp
    then show ?thesis using False res by (simp add: step'_def n_def)
  qed
qed


lemma matrixSelector_steps_grid:
  assumes "callKeepsStepTime fn sel" and "onGrid ts0 (ms_step sel) vectors"
    and "currStep \<le> length vectors" and "seriesTs = ts0 + int currStep * ms_step sel"
    and "matrixSelector_steps fn sel n currStep seriesTs series vectors = (None, series', vectors')"
  shows "onGrid ts0 (ms_step sel) vectors'
     \<and> length vectors'
        = max (length vectors) (currStep + length (stepTimes (ms_maxt sel) (ms_step sel) n seriesTs))"
  using assms(2-)
proof (induction n arbitrary: currStep seriesTs series vectors)
  case 0
  then show ?case by simp
next
  case (Suc n)
  show ?case
  proof (cases "seriesTs \<le> ms_maxt sel")
    case False
    then show ?thesis using Suc.prems by simp
  next
    case True
    define vectors1 where "vectors1 =
      (if length vectors \<le> currStep then vectors @ [GetStepVector seriesTs] else vectors)"
    obtain res it' where sp: "selectPoints (IsExtFunction fn) (ms_samples series)
        (seriesTs - offset sel - selectRange sel) (seriesTs - offset sel)
        (previousPoints series) (funcName sel) (extLookbackDelta sel) = (res, it')"
      by (cases "selectPoints (IsExtFunction fn) (ms_samples series)
        (seriesTs - offset sel - selectRange sel) (seriesTs - offset sel)
        (previousPoints series) (funcName sel) (extLookbackDelta sel)")
    have g1: "onGrid ts0 (ms_step sel) vectors1"
      using Suc.prems(1,2,3) by (auto simp: vectors1_def GetStepVector_def intro!: onGrid_snoc)
    have l1: "currStep < length vectors1" "length vectors1 = max (length vectors) (Suc currStep)"
      using Suc.prems(2) by (auto simp: vectors1_def)
    show ?thesis
    proof (cases res)
      case (Inl e)
      obtain err prev where "e = (err, prev)" by (cases e)
      then have "fst (matrixSelector_steps fn sel (Suc n) currStep seriesTs series vectors) = Some err"
        using True sp Inl by (simp add: Let_def)
      then show ?thesis using Suc.prems(4) by simp
    next
      case (Inr rangePoints)
      define result where "result = ms_call sel
          \<lparr>fa_Labels = ms_labels series, fa_Points = rangePoints,
           fa_StepTime = seriesTs, fa_SelectRange = selectRange sel, fa_Offset = offset sel\<rparr>"
      define vectors2 where "vectors2 =
          (if \<not> point_eq (sample_Point result) (sample_Point (InvalidSample fn))
           then vectors1[currStep := appendResult (ms_signature series) result (vectors1 ! currStep)]
           else vectors1)"
      define series2 where "series2 = series\<lparr>previousPoints := rangePoints,
          ms_samples := ReduceDelta (if selectRange sel > ms_step sel then ms_step sel
                                     else selectRange sel) it'\<rparr>"
      have unfold: "matrixSelector_steps fn sel (Suc n) currStep seriesTs series vectors
          = matrixSelector_steps fn sel n (Suc currStep) (seriesTs + ms_step sel) series2 vectors2"
        unfolding vectors2_def vectors1_def result_def series2_def
        using True by (simp add: sp Inr Let_def)
      have g2: "onGrid ts0 (ms_step sel) vectors2"
      proof (cases "point_eq (sample_Point result) (sample_Point (InvalidSample fn))")
        case True
        then show ?thesis using g1 by (simp add: vectors2_def)
      next
        case False
        then have "pt_T (sample_Point result) = seriesTs"
          using assms(1) unfolding callKeepsStepTime_def result_def by fastforce
        then have "sv_T (appendResult (ms_signature series) result (vectors1 ! currStep))
            = ts0 + int currStep * ms_step sel"
          using Suc.prems(3)
          by (simp add: appendResult_def AppendSample_def AppendHistogram_def Let_def
              split: option.splits)
        then show ?thesis using False g1 l1(1) by (simp add: vectors2_def onGrid_update)
      qed
      have l2: "length vectors2 = length vectors1" by (simp add: vectors2_def)
      have ih: "onGrid ts0 (ms_step sel) vectors'
        \<and> length vectors' = max (length vectors2)
             (Suc currStep + length (stepTimes (ms_maxt sel) (ms_step sel) n (seriesTs + ms_step sel)))"
        by (rule Suc.IH [OF g2])
           (use l1 l2 Suc.prems(3,4) unfold in \<open>simp_all add: algebra_simps\<close>)
      show ?thesis using ih True l1 l2 by auto
    qed
  qed
qed

lemma matrixSelector_scan_grid:
  assumes "callKeepsStepTime fn sel" and "onGrid ts (ms_step sel) vectors"
    and "matrixSelector_scan fn sel n ts scanners vectors = (None, scanners', vectors')"
  shows "onGrid ts (ms_step sel) vectors'
     \<and> length vectors'
        = (if scanners = [] then length vectors
           else max (length vectors) (length (stepTimes (ms_maxt sel) (ms_step sel) n ts)))
     \<and> (scanners' = [] \<longleftrightarrow> scanners = [])"
  using assms(2-)
proof (induction scanners arbitrary: vectors scanners')
  case Nil
  then show ?case by simp
next
  case (Cons series rest)
  obtain e series' vectors1 where
    st: "matrixSelector_steps fn sel n 0 ts series vectors = (e, series', vectors1)"
    by (cases "matrixSelector_steps fn sel n 0 ts series vectors")
  have e: "e = None" using Cons.prems(2) st by (cases e) simp_all
  have s1: "onGrid ts (ms_step sel) vectors1
      \<and> length vectors1
         = max (length vectors) (0 + length (stepTimes (ms_maxt sel) (ms_step sel) n ts))"
    by (rule matrixSelector_steps_grid [OF assms(1) Cons.prems(1) _ _ st [unfolded e]]) simp_all
  obtain e2 rest' vectors2 where
    sc: "matrixSelector_scan fn sel n ts rest vectors1 = (e2, rest', vectors2)"
    by (cases "matrixSelector_scan fn sel n ts rest vectors1")
  have res: "e2 = None" "scanners' = series' # rest'" "vectors' = vectors2"
    using Cons.prems(2) st e sc by simp_all
  have sc': "matrixSelector_scan fn sel n ts rest vectors1 = (None, rest', vectors')"
    using sc res by simp
  have s2: "onGrid ts (ms_step sel) vectors'
      \<and> length vectors' = (if rest = [] then length vectors1
           else max (length vectors1) (length (stepTimes (ms_maxt sel) (ms_step sel) n ts)))
      \<and> (rest' = [] \<longleftrightarrow> rest = [])"
    using s1 by (intro Cons.IH [OF _ sc']) simp
  show ?case using s1 s2 res by auto
qed

lemma matrixSelector_Next_times:
  assumes "callKeepsStepTime fn sel"
    and "matrixSelector_Next fn ctx sel = (Inr (Some batch), sel')"
  shows "map sv_T batch =
       (if ms_scanners sel' = [] then []
        else stepTimes (ms_maxt sel) (ms_step sel) (nat (ms_numSteps sel)) (ms_currentStep sel))"
proof -
  from assms(2) have live: "errAtEntry ctx = None" and le: "\<not> ms_currentStep sel > ms_maxt sel"
    by (auto simp: matrixSelector_Next_def split: option.splits if_splits)
  obtain sel1 where ld: "matrixSelector_loadSeries fn ctx sel = (None, sel1)"
    using assms(2) le live
    by (cases "matrixSelector_loadSeries fn ctx sel"; cases "fst (matrixSelector_loadSeries fn ctx sel)")
       (auto simp: matrixSelector_Next_def)
  have same: "ms_maxt sel1 = ms_maxt sel" "ms_step sel1 = ms_step sel"
     "ms_currentStep sel1 = ms_currentStep sel" "ms_numSteps sel1 = ms_numSteps sel"
     "ms_call sel1 = ms_call sel"
    using ld by (auto simp: matrixSelector_loadSeries_def split: if_splits sum.splits)
  have call1: "callKeepsStepTime fn sel1"
    using assms(1) same(5) by (simp add: callKeepsStepTime_def)
  obtain e scanners' vectors where
    sc: "matrixSelector_scan fn sel1 (nat (ms_numSteps sel1)) (ms_currentStep sel1)
           (ms_scanners sel1) [] = (e, scanners', vectors)"
    by (cases "matrixSelector_scan fn sel1 (nat (ms_numSteps sel1)) (ms_currentStep sel1)
           (ms_scanners sel1) []")
  have res: "e = None" "batch = vectors" "ms_scanners sel' = scanners'"
    using assms(2) le live ld sc
    by (cases e; auto simp: matrixSelector_Next_def Let_def GetVectorBatch_def split: if_splits)+
  have g: "onGrid (ms_currentStep sel1) (ms_step sel1) vectors
     \<and> length vectors = (if ms_scanners sel1 = [] then length ([]::StepVector list)
           else max (length ([]::StepVector list))
                  (length (stepTimes (ms_maxt sel1) (ms_step sel1) (nat (ms_numSteps sel1))
                     (ms_currentStep sel1))))
     \<and> (scanners' = [] \<longleftrightarrow> ms_scanners sel1 = [])"
    by (rule matrixSelector_scan_grid [OF call1 onGrid_Nil sc [unfolded res(1)]])
  show ?thesis
  proof (cases "scanners' = []")
    case True
    then show ?thesis using g res by simp
  next
    case False
    then have "length vectors = length (stepTimes (ms_maxt sel) (ms_step sel)
        (nat (ms_numSteps sel)) (ms_currentStep sel))"
      using g same by simp
    moreover have "map sv_T vectors
        = map (\<lambda>k. ms_currentStep sel + int k * ms_step sel) [0..<length vectors]"
      using g same by (simp add: onGrid_def)
    ultimately have "map sv_T vectors = stepTimes (ms_maxt sel) (ms_step sel)
        (nat (ms_numSteps sel)) (ms_currentStep sel)"
      using stepTimes_progression [of "ms_maxt sel" "ms_step sel" "nat (ms_numSteps sel)"
          "ms_currentStep sel"] by simp
    then show ?thesis using False res by simp
  qed
qed


lemma progression_bounded:
  assumes "map sv_T batch = stepTimes maxt step n c"
  shows "map sv_T batch = map (\<lambda>k. c + int k * step) [0..<length batch]
     \<and> (\<forall>v \<in> set batch. sv_T v \<le> maxt)"
proof
  show "map sv_T batch = map (\<lambda>k. c + int k * step) [0..<length batch]"
    using stepTimes_progression [of maxt step n c] unfolding assms [symmetric] by simp
  show "\<forall>v \<in> set batch. sv_T v \<le> maxt"
  proof
    fix v assume "v \<in> set batch"
    then have "sv_T v \<in> set (map sv_T batch)" by simp
    then have "sv_T v \<in> set (stepTimes maxt step n c)" by (simp only: assms)
    then show "sv_T v \<le> maxt" by (rule stepTimes_bounded)
  qed
qed

lemma progression_on_grid:
  assumes "map sv_T batch = map (\<lambda>k. c + int k * step) [0..<length batch]"
    and "c = m + int j * step" and "v \<in> set batch"
  shows "\<exists>k::nat. sv_T v = m + int k * step"
proof -
  from assms(3) obtain i where i: "i < length batch" "v = batch ! i"
    by (auto simp: in_set_conv_nth)
  have "sv_T v = map sv_T batch ! i" using i by simp
  also have "\<dots> = c + int i * step" using i by (simp add: assms(1))
  also have "\<dots> = m + int (j + i) * step" by (simp add: assms(2) algebra_simps)
  finally show ?thesis by blast
qed

lemma vector_batch_times:
  assumes "fst (vectorSelector_Next ctx sel) = Inr (Some batch)"
  shows "map sv_T batch
       = map (\<lambda>k. vs_currentStep sel + int k * (if vs_step sel = 0 then 1 else vs_step sel))
           [0..<length batch]
     \<and> (\<forall>v \<in> set batch. sv_T v \<le> vs_maxt sel)
     \<and> (vs_scanners (snd (vectorSelector_Next ctx sel)) \<noteq> [] \<longrightarrow>
          map sv_T batch
            = stepTimes (vs_maxt sel) (if vs_step sel = 0 then 1 else vs_step sel)
                (nat (min (stepsBatch sel)
                   (if vs_step sel \<noteq> 0
                    then quo (vs_maxt sel - vs_mint sel) (vs_step sel) + 1 else 1)))
                (vs_currentStep sel))"
proof -
  have pair: "vectorSelector_Next ctx sel = (Inr (Some batch), snd (vectorSelector_Next ctx sel))"
    using assms by (metis prod.collapse)
  note t = vectorSelector_Next_times [OF pair]
  show ?thesis
  proof (cases "vs_scanners (snd (vectorSelector_Next ctx sel)) = []")
    case True
    then have "batch = []" using t by simp
    then show ?thesis using True by simp
  next
    case False
    then have eq: "map sv_T batch
        = stepTimes (vs_maxt sel) (if vs_step sel = 0 then 1 else vs_step sel)
                (nat (min (stepsBatch sel)
                   (if vs_step sel \<noteq> 0
                    then quo (vs_maxt sel - vs_mint sel) (vs_step sel) + 1 else 1)))
                (vs_currentStep sel)"
      using t by simp
    from progression_bounded [OF eq] eq show ?thesis by blast
  qed
qed

lemma matrix_batch_times:
  assumes "callKeepsStepTime fn sel"
    and "fst (matrixSelector_Next fn ctx sel) = Inr (Some batch)"
  shows "map sv_T batch
       = map (\<lambda>k. ms_currentStep sel + int k * ms_step sel) [0..<length batch]
     \<and> (\<forall>v \<in> set batch. sv_T v \<le> ms_maxt sel)
     \<and> (ms_scanners (snd (matrixSelector_Next fn ctx sel)) \<noteq> [] \<longrightarrow>
          map sv_T batch
            = stepTimes (ms_maxt sel) (ms_step sel) (nat (ms_numSteps sel)) (ms_currentStep sel))"
proof -
  have pair: "matrixSelector_Next fn ctx sel
      = (Inr (Some batch), snd (matrixSelector_Next fn ctx sel))"
    using assms(2) by (metis prod.collapse)
  note t = matrixSelector_Next_times [OF assms(1) pair]
  show ?thesis
  proof (cases "ms_scanners (snd (matrixSelector_Next fn ctx sel)) = []")
    case True
    then have "batch = []" using t by simp
    then show ?thesis using True by simp
  next
    case False
    then have eq: "map sv_T batch
        = stepTimes (ms_maxt sel) (ms_step sel) (nat (ms_numSteps sel)) (ms_currentStep sel)"
      using t by simp
    from progression_bounded [OF eq] eq show ?thesis by blast
  qed
qed

text \<open>
  Claim C7. The times of the step vectors of a batch are \<open>currentStep\<close>,
  \<open>currentStep + step\<close>, and so on, none after \<open>maxt\<close>; when the operator has a series,
  they are exactly the times the loop of the pull visits, and when \<open>currentStep\<close> lies on
  the grid \<open>mint + k * step\<close> so does every time of the batch. The vector selector takes 1
  for the step of an instant query before its loop. For the matrix selector the time of
  a step vector is the time of the function's result, which is the step time.
\<close>

theorem batch_times_progression:
  "(fst (vectorSelector_Next ctx vsel) = Inr (Some vbatch) \<longrightarrow>
       map sv_T vbatch
         = map (\<lambda>k. vs_currentStep vsel + int k * (if vs_step vsel = 0 then 1 else vs_step vsel))
             [0..<length vbatch]
     \<and> (\<forall>v \<in> set vbatch. sv_T v \<le> vs_maxt vsel)
     \<and> (vs_scanners (snd (vectorSelector_Next ctx vsel)) \<noteq> [] \<longrightarrow>
          map sv_T vbatch
            = stepTimes (vs_maxt vsel) (if vs_step vsel = 0 then 1 else vs_step vsel)
                (nat (min (stepsBatch vsel)
                   (if vs_step vsel \<noteq> 0
                    then quo (vs_maxt vsel - vs_mint vsel) (vs_step vsel) + 1 else 1)))
                (vs_currentStep vsel))
     \<and> (vs_currentStep vsel
            = vs_mint vsel + int j * (if vs_step vsel = 0 then 1 else vs_step vsel) \<longrightarrow>
          (\<forall>v \<in> set vbatch. \<exists>k::nat.
             sv_T v = vs_mint vsel + int k * (if vs_step vsel = 0 then 1 else vs_step vsel))))
   \<and> (callKeepsStepTime fn msel \<and> fst (matrixSelector_Next fn ctx' msel) = Inr (Some mbatch) \<longrightarrow>
       map sv_T mbatch
         = map (\<lambda>k. ms_currentStep msel + int k * ms_step msel) [0..<length mbatch]
     \<and> (\<forall>v \<in> set mbatch. sv_T v \<le> ms_maxt msel)
     \<and> (ms_scanners (snd (matrixSelector_Next fn ctx' msel)) \<noteq> [] \<longrightarrow>
          map sv_T mbatch
            = stepTimes (ms_maxt msel) (ms_step msel) (nat (ms_numSteps msel))
                (ms_currentStep msel))
     \<and> (ms_currentStep msel = ms_mint msel + int i * ms_step msel \<longrightarrow>
          (\<forall>v \<in> set mbatch. \<exists>k::nat. sv_T v = ms_mint msel + int k * ms_step msel)))"
proof (intro conjI impI)
  assume a: "fst (vectorSelector_Next ctx vsel) = Inr (Some vbatch)"
  note v = vector_batch_times [OF a]
  show "map sv_T vbatch
         = map (\<lambda>k. vs_currentStep vsel + int k * (if vs_step vsel = 0 then 1 else vs_step vsel))
             [0..<length vbatch]"
    using v by blast
  show "\<forall>v \<in> set vbatch. sv_T v \<le> vs_maxt vsel" using v by blast
  show "map sv_T vbatch
            = stepTimes (vs_maxt vsel) (if vs_step vsel = 0 then 1 else vs_step vsel)
                (nat (min (stepsBatch vsel)
                   (if vs_step vsel \<noteq> 0
                    then quo (vs_maxt vsel - vs_mint vsel) (vs_step vsel) + 1 else 1)))
                (vs_currentStep vsel)"
    if "vs_scanners (snd (vectorSelector_Next ctx vsel)) \<noteq> []"
    using v that by blast
  show "\<forall>v \<in> set vbatch. \<exists>k::nat.
             sv_T v = vs_mint vsel + int k * (if vs_step vsel = 0 then 1 else vs_step vsel)"
    if "vs_currentStep vsel
            = vs_mint vsel + int j * (if vs_step vsel = 0 then 1 else vs_step vsel)"
    using progression_on_grid [OF conjunct1 [OF v] that] by blast
next
  assume "callKeepsStepTime fn msel \<and> fst (matrixSelector_Next fn ctx' msel) = Inr (Some mbatch)"
  then have c: "callKeepsStepTime fn msel"
    and a: "fst (matrixSelector_Next fn ctx' msel) = Inr (Some mbatch)" by simp_all
  note m = matrix_batch_times [OF c a]
  show "map sv_T mbatch
         = map (\<lambda>k. ms_currentStep msel + int k * ms_step msel) [0..<length mbatch]"
    using m by blast
  show "\<forall>v \<in> set mbatch. sv_T v \<le> ms_maxt msel" using m by blast
  show "map sv_T mbatch
            = stepTimes (ms_maxt msel) (ms_step msel) (nat (ms_numSteps msel))
                (ms_currentStep msel)"
    if "ms_scanners (snd (matrixSelector_Next fn ctx' msel)) \<noteq> []"
    using m that by blast
  show "\<forall>v \<in> set mbatch. \<exists>k::nat. sv_T v = ms_mint msel + int k * ms_step msel"
    if "ms_currentStep msel = ms_mint msel + int i * ms_step msel"
    using progression_on_grid [OF conjunct1 [OF m] that] by blast
qed


theorem batch_times_progression_witness:
  "fst (vectorSelector_Next \<lparr>errAtEntry = None, errAtReturn = None\<rparr>
        (NewVectorSelector
          (\<lambda>c a b. Inr [\<lparr>ss_labels = [], ss_signature = 1,
             ss_samples = [(0, 0x3FF0000000000000), (5, 0x4000000000000000),
                           (10, 0x4008000000000000)]\<rparr>])
          0 10 5 0 10 0 1))
     = Inr (Some [\<lparr>sv_T = 0, SampleIDs = [1], Samples = [0x3FF0000000000000],
                    HistogramIDs = [], Histograms = []\<rparr>,
                  \<lparr>sv_T = 5, SampleIDs = [1], Samples = [0x4000000000000000],
                    HistogramIDs = [], Histograms = []\<rparr>,
                  \<lparr>sv_T = 10, SampleIDs = [1], Samples = [0x4008000000000000],
                    HistogramIDs = [], Histograms = []\<rparr>])
   \<and> map sv_T [\<lparr>sv_T = 0, SampleIDs = [1], Samples = [0x3FF0000000000000],
                    HistogramIDs = [], Histograms = []\<rparr>,
                  \<lparr>sv_T = 5, SampleIDs = [1], Samples = [0x4000000000000000],
                    HistogramIDs = [], Histograms = []\<rparr>,
                  \<lparr>sv_T = 10, SampleIDs = [1], Samples = [0x4008000000000000],
                    HistogramIDs = [], Histograms = []\<rparr>] = [0, 5, 10]
   \<and> callKeepsStepTime \<lparr>IsExtFunction = (\<lambda>n. False),
           InvalidSample = \<lparr>sample_Point = \<lparr>pt_T = -1, pt_V = 0, pt_H = None\<rparr>,
                             sample_Metric = []\<rparr>,
           DropMetricName = (\<lambda>l. l)\<rparr>
        (NewMatrixSelector
          (\<lambda>c a b. Inr [\<lparr>sg_labels = [], sg_signature = 7,
             sg_samples = [(0, FloatValue 0x3FF0000000000000), (5, FloatValue 0x4000000000000000),
                           (10, FloatValue 0x4008000000000000)], sg_fail = None\<rparr>])
          (\<lambda>a. \<lparr>sample_Point = \<lparr>pt_T = fa_StepTime a, pt_V = 0x3FF0000000000000, pt_H = None\<rparr>,
                 sample_Metric = []\<rparr>)
          ''rate'' 3 0 10 5 10 0 0 1 0)
   \<and> fst (matrixSelector_Next \<lparr>IsExtFunction = (\<lambda>n. False),
           InvalidSample = \<lparr>sample_Point = \<lparr>pt_T = -1, pt_V = 0, pt_H = None\<rparr>,
                             sample_Metric = []\<rparr>,
           DropMetricName = (\<lambda>l. l)\<rparr> \<lparr>errAtEntry = None, errAtReturn = None\<rparr>
        (NewMatrixSelector
          (\<lambda>c a b. Inr [\<lparr>sg_labels = [], sg_signature = 7,
             sg_samples = [(0, FloatValue 0x3FF0000000000000), (5, FloatValue 0x4000000000000000),
                           (10, FloatValue 0x4008000000000000)], sg_fail = None\<rparr>])
          (\<lambda>a. \<lparr>sample_Point = \<lparr>pt_T = fa_StepTime a, pt_V = 0x3FF0000000000000, pt_H = None\<rparr>,
                 sample_Metric = []\<rparr>)
          ''rate'' 3 0 10 5 10 0 0 1 0))
     = Inr (Some [\<lparr>sv_T = 0, SampleIDs = [7], Samples = [0x3FF0000000000000],
                    HistogramIDs = [], Histograms = []\<rparr>,
                  \<lparr>sv_T = 5, SampleIDs = [7], Samples = [0x3FF0000000000000],
                    HistogramIDs = [], Histograms = []\<rparr>,
                  \<lparr>sv_T = 10, SampleIDs = [7], Samples = [0x3FF0000000000000],
                    HistogramIDs = [], Histograms = []\<rparr>])
   \<and> map sv_T [\<lparr>sv_T = 0, SampleIDs = [7], Samples = [0x3FF0000000000000],
                    HistogramIDs = [], Histograms = []\<rparr>,
                  \<lparr>sv_T = 5, SampleIDs = [7], Samples = [0x3FF0000000000000],
                    HistogramIDs = [], Histograms = []\<rparr>,
                  \<lparr>sv_T = 10, SampleIDs = [7], Samples = [0x3FF0000000000000],
                    HistogramIDs = [], Histograms = []\<rparr>] = [0, 5, 10]"
proof -
  have h1: "fst (vectorSelector_Next \<lparr>errAtEntry = None, errAtReturn = None\<rparr>
        (NewVectorSelector
          (\<lambda>c a b. Inr [\<lparr>ss_labels = [], ss_signature = 1,
             ss_samples = [(0, 0x3FF0000000000000), (5, 0x4000000000000000),
                           (10, 0x4008000000000000)]\<rparr>])
          0 10 5 0 10 0 1))
     = Inr (Some [\<lparr>sv_T = 0, SampleIDs = [1], Samples = [0x3FF0000000000000],
                    HistogramIDs = [], Histograms = []\<rparr>,
                  \<lparr>sv_T = 5, SampleIDs = [1], Samples = [0x4000000000000000],
                    HistogramIDs = [], Histograms = []\<rparr>,
                  \<lparr>sv_T = 10, SampleIDs = [1], Samples = [0x4008000000000000],
                    HistogramIDs = [], Histograms = []\<rparr>])"
    by (simp add: NewVectorSelector_def vectorSelector_Next_def vectorSelector_loadSeries_def
        newVectorScanner_def newIterator_def selectPoint_def vectorScanner_At_def quo_def
        GetVectorBatch_def GetStepVector_def AppendSample_def
        IsStaleNaN_def StaleNaN_def Let_def numeral_3_eq_3)
  have h2: "callKeepsStepTime \<lparr>IsExtFunction = (\<lambda>n. False),
           InvalidSample = \<lparr>sample_Point = \<lparr>pt_T = -1, pt_V = 0, pt_H = None\<rparr>,
                             sample_Metric = []\<rparr>,
           DropMetricName = (\<lambda>l. l)\<rparr>
        (NewMatrixSelector
          (\<lambda>c a b. Inr [\<lparr>sg_labels = [], sg_signature = 7,
             sg_samples = [(0, FloatValue 0x3FF0000000000000), (5, FloatValue 0x4000000000000000),
                           (10, FloatValue 0x4008000000000000)], sg_fail = None\<rparr>])
          (\<lambda>a. \<lparr>sample_Point = \<lparr>pt_T = fa_StepTime a, pt_V = 0x3FF0000000000000, pt_H = None\<rparr>,
                 sample_Metric = []\<rparr>)
          ''rate'' 3 0 10 5 10 0 0 1 0)"
    by (simp add: callKeepsStepTime_def NewMatrixSelector_def)
  have h3: "fst (matrixSelector_Next \<lparr>IsExtFunction = (\<lambda>n. False),
           InvalidSample = \<lparr>sample_Point = \<lparr>pt_T = -1, pt_V = 0, pt_H = None\<rparr>,
                             sample_Metric = []\<rparr>,
           DropMetricName = (\<lambda>l. l)\<rparr> \<lparr>errAtEntry = None, errAtReturn = None\<rparr>
        (NewMatrixSelector
          (\<lambda>c a b. Inr [\<lparr>sg_labels = [], sg_signature = 7,
             sg_samples = [(0, FloatValue 0x3FF0000000000000), (5, FloatValue 0x4000000000000000),
                           (10, FloatValue 0x4008000000000000)], sg_fail = None\<rparr>])
          (\<lambda>a. \<lparr>sample_Point = \<lparr>pt_T = fa_StepTime a, pt_V = 0x3FF0000000000000, pt_H = None\<rparr>,
                 sample_Metric = []\<rparr>)
          ''rate'' 3 0 10 5 10 0 0 1 0))
     = Inr (Some [\<lparr>sv_T = 0, SampleIDs = [7], Samples = [0x3FF0000000000000],
                    HistogramIDs = [], Histograms = []\<rparr>,
                  \<lparr>sv_T = 5, SampleIDs = [7], Samples = [0x3FF0000000000000],
                    HistogramIDs = [], Histograms = []\<rparr>,
                  \<lparr>sv_T = 10, SampleIDs = [7], Samples = [0x3FF0000000000000],
                    HistogramIDs = [], Histograms = []\<rparr>])"
    by (simp add: NewMatrixSelector_def matrixSelector_Next_def matrixSelector_loadSeries_def
      newMatrixScanner_def GetVectorBatch_def GetStepVector_def appendResult_def AppendSample_def
      point_eq_def float64_eq_def float64_isNaN_def
      selectPoints_def selectPoints_reuse_def selectPoints_drop_def selectPoints_sought_def
      NewBufferIterator_def newSeriesIterator_def si_Next_def si_moveTo_def si_Seek_def si_At_def
      BufferedSeriesIterator_Seek_def BufferedSeriesIterator_Next_def BufferedSeriesIterator_Err_def
      Buffer_def ReduceDelta_def sampleRing_add_def MinInt64_def
      IsStaleNaN_def StaleNaN_def Let_def floatPoint_def numeral_3_eq_3)
  have "\<forall>v \<in> set [\<lparr>sv_T = 0, SampleIDs = [7], Samples = [0x3FF0000000000000],
                    HistogramIDs = [], Histograms = []\<rparr>,
                  \<lparr>sv_T = 5, SampleIDs = [7], Samples = [0x3FF0000000000000],
                    HistogramIDs = [], Histograms = []\<rparr>,
                  \<lparr>sv_T = 10, SampleIDs = [7], Samples = [0x3FF0000000000000],
                    HistogramIDs = [], Histograms = []\<rparr>]. sv_T v \<le> ms_maxt (NewMatrixSelector
          (\<lambda>c a b. Inr [\<lparr>sg_labels = [], sg_signature = 7,
             sg_samples = [(0, FloatValue 0x3FF0000000000000), (5, FloatValue 0x4000000000000000),
                           (10, FloatValue 0x4008000000000000)], sg_fail = None\<rparr>])
          (\<lambda>a. \<lparr>sample_Point = \<lparr>pt_T = fa_StepTime a, pt_V = 0x3FF0000000000000, pt_H = None\<rparr>,
                 sample_Metric = []\<rparr>)
          ''rate'' 3 0 10 5 10 0 0 1 0)"
    using batch_times_progression [where ctx = "\<lparr>errAtEntry = None, errAtReturn = None\<rparr>"
        and vsel = "(NewVectorSelector
          (\<lambda>c a b. Inr [\<lparr>ss_labels = [], ss_signature = 1,
             ss_samples = [(0, 0x3FF0000000000000), (5, 0x4000000000000000),
                           (10, 0x4008000000000000)]\<rparr>])
          0 10 5 0 10 0 1)"
        and vbatch = "[\<lparr>sv_T = 0, SampleIDs = [1], Samples = [0x3FF0000000000000],
                    HistogramIDs = [], Histograms = []\<rparr>,
                  \<lparr>sv_T = 5, SampleIDs = [1], Samples = [0x4000000000000000],
                    HistogramIDs = [], Histograms = []\<rparr>,
                  \<lparr>sv_T = 10, SampleIDs = [1], Samples = [0x4008000000000000],
                    HistogramIDs = [], Histograms = []\<rparr>]"
        and fn = "\<lparr>IsExtFunction = (\<lambda>n. False),
           InvalidSample = \<lparr>sample_Point = \<lparr>pt_T = -1, pt_V = 0, pt_H = None\<rparr>,
                             sample_Metric = []\<rparr>,
           DropMetricName = (\<lambda>l. l)\<rparr>"
        and ctx' = "\<lparr>errAtEntry = None, errAtReturn = None\<rparr>"
        and msel = "(NewMatrixSelector
          (\<lambda>c a b. Inr [\<lparr>sg_labels = [], sg_signature = 7,
             sg_samples = [(0, FloatValue 0x3FF0000000000000), (5, FloatValue 0x4000000000000000),
                           (10, FloatValue 0x4008000000000000)], sg_fail = None\<rparr>])
          (\<lambda>a. \<lparr>sample_Point = \<lparr>pt_T = fa_StepTime a, pt_V = 0x3FF0000000000000, pt_H = None\<rparr>,
                 sample_Metric = []\<rparr>)
          ''rate'' 3 0 10 5 10 0 0 1 0)"
        and mbatch = "[\<lparr>sv_T = 0, SampleIDs = [7], Samples = [0x3FF0000000000000],
                    HistogramIDs = [], Histograms = []\<rparr>,
                  \<lparr>sv_T = 5, SampleIDs = [7], Samples = [0x3FF0000000000000],
                    HistogramIDs = [], Histograms = []\<rparr>,
                  \<lparr>sv_T = 10, SampleIDs = [7], Samples = [0x3FF0000000000000],
                    HistogramIDs = [], Histograms = []\<rparr>]"] h2 h3
    by blast
  then show ?thesis using h1 h2 h3 by (simp add: NewMatrixSelector_def)
qed

section \<open>The first window of an extended range function\<close>

lemma valueTypeOf_not_None: "valueTypeOf s \<noteq> ValNone"
  by (cases s; cases "snd s") auto

lemma sampleRing_add_keep:
  assumes "0 \<le> d" and "\<forall>x \<in> set buf. fst s - d \<le> fst x"
  shows "sampleRing_add s d buf = buf @ [s]"
proof -
  have "\<forall>x \<in> set (buf @ [s]). \<not> fst x < fst s - d" using assms by auto
  then have "dropWhile (\<lambda>x. fst x < fst s - d) (buf @ [s]) = buf @ [s]"
    by (metis dropWhile_eq_self_iff hd_in_set)
  then show ?thesis by (simp add: sampleRing_add_def)
qed

lemma advance_spec:
  assumes "valueType b \<noteq> ValNone" and "si_cur (bsi_it b) = Some c"
    and "si_rest (bsi_it b) = r" and "fst c < t" and "0 \<le> bsi_bufDelta b"
    and "\<forall>x \<in> set (bsi_buf b). t - bsi_bufDelta b \<le> fst x"
    and "\<forall>x \<in> set (c # r). t - bsi_bufDelta b \<le> fst x"
  shows "bsi_buf (BufferedSeriesIterator_advance t b)
           = bsi_buf b @ takeWhile (\<lambda>x. fst x < t) (c # r)
     \<and> valueType (BufferedSeriesIterator_advance t b)
           = (case dropWhile (\<lambda>x. fst x < t) r of [] \<Rightarrow> ValNone | s # xs \<Rightarrow> valueTypeOf s)
     \<and> si_cur (bsi_it (BufferedSeriesIterator_advance t b))
           = (case dropWhile (\<lambda>x. fst x < t) r of [] \<Rightarrow> None | s # xs \<Rightarrow> Some s)
     \<and> si_err (bsi_it (BufferedSeriesIterator_advance t b))
           = (case dropWhile (\<lambda>x. fst x < t) r of [] \<Rightarrow> si_fail (bsi_it b)
              | s # xs \<Rightarrow> si_err (bsi_it b))"
  using assms
proof (induction r arbitrary: b c)
  case Nil
  have add: "sampleRing_add c (bsi_bufDelta b) (bsi_buf b) = bsi_buf b @ [c]"
    using Nil.prems by (intro sampleRing_add_keep) auto
  have nx: "BufferedSeriesIterator_Next b
      = b\<lparr>bsi_buf := bsi_buf b @ [c],
           bsi_it := (bsi_it b)\<lparr>si_cur := None, si_rest := [], si_err := si_fail (bsi_it b)\<rparr>,
           valueType := ValNone, lastTime := lastTime b\<rparr>"
    using Nil.prems(1,2,3) add
    by (simp add: BufferedSeriesIterator_Next_def si_At_def si_Next_def si_moveTo_def Let_def)
  have "BufferedSeriesIterator_advance t b = BufferedSeriesIterator_Next b"
    by (subst BufferedSeriesIterator_advance.simps) (simp add: nx Let_def)
  then show ?case using Nil.prems(4) by (simp add: nx del: BufferedSeriesIterator_advance.simps)
next
  case (Cons s r)
  have add: "sampleRing_add c (bsi_bufDelta b) (bsi_buf b) = bsi_buf b @ [c]"
    using Cons.prems by (intro sampleRing_add_keep) auto
  define b1 where "b1 = b\<lparr>bsi_buf := bsi_buf b @ [c],
           bsi_it := (bsi_it b)\<lparr>si_cur := Some s, si_rest := r\<rparr>,
           valueType := valueTypeOf s, lastTime := fst s\<rparr>"
  have nx: "BufferedSeriesIterator_Next b = b1"
    using Cons.prems(1,2,3) add valueTypeOf_not_None [of s]
    by (simp add: BufferedSeriesIterator_Next_def si_At_def si_Next_def si_moveTo_def Let_def b1_def)
  show ?case
  proof (cases "fst s \<ge> t")
    case True
    have "BufferedSeriesIterator_advance t b = b1"
      by (subst BufferedSeriesIterator_advance.simps) (simp add: nx Let_def b1_def True)
    then show ?thesis using True Cons.prems(4)
      by (simp add: b1_def del: BufferedSeriesIterator_advance.simps)
  next
    case False
    have adv: "BufferedSeriesIterator_advance t b = BufferedSeriesIterator_advance t b1"
      by (subst BufferedSeriesIterator_advance.simps)
         (simp add: nx Let_def b1_def False valueTypeOf_not_None)
    have ih: "bsi_buf (BufferedSeriesIterator_advance t b1)
           = bsi_buf b1 @ takeWhile (\<lambda>x. fst x < t) (s # r)
     \<and> valueType (BufferedSeriesIterator_advance t b1)
           = (case dropWhile (\<lambda>x. fst x < t) r of [] \<Rightarrow> ValNone | s # xs \<Rightarrow> valueTypeOf s)
     \<and> si_cur (bsi_it (BufferedSeriesIterator_advance t b1))
           = (case dropWhile (\<lambda>x. fst x < t) r of [] \<Rightarrow> None | s # xs \<Rightarrow> Some s)
     \<and> si_err (bsi_it (BufferedSeriesIterator_advance t b1))
           = (case dropWhile (\<lambda>x. fst x < t) r of [] \<Rightarrow> si_fail (bsi_it b1)
              | s # xs \<Rightarrow> si_err (bsi_it b1))"
      by (rule Cons.IH)
         (use Cons.prems False in \<open>auto simp: b1_def valueTypeOf_not_None
             simp del: BufferedSeriesIterator_advance.simps\<close>)
    have keep: "bsi_buf b1 = bsi_buf b @ [c]" "si_fail (bsi_it b1) = si_fail (bsi_it b)"
      "si_err (bsi_it b1) = si_err (bsi_it b)"
      by (simp_all add: b1_def)
    have tw: "takeWhile (\<lambda>x. fst x < t) (c # s # r) = c # takeWhile (\<lambda>x. fst x < t) (s # r)"
      using Cons.prems(4) by simp
    have dw: "dropWhile (\<lambda>x. fst x < t) (s # r) = dropWhile (\<lambda>x. fst x < t) r"
      using False by simp
    show ?thesis unfolding adv tw dw using ih unfolding keep by simp
  qed
qed


lemma sorted_dropWhile_ge:
  "sorted (map fst xs) \<Longrightarrow> \<forall>x \<in> set (dropWhile (\<lambda>x. fst x < (a::int)) xs). a \<le> fst x"
proof (induction xs)
  case Nil
  show ?case by simp
next
  case (Cons x xs)
  show ?case
  proof (cases "fst x < a")
    case True
    then show ?thesis using Cons by simp
  next
    case False
    then have "\<forall>y \<in> set (x # xs). a \<le> fst y" using Cons.prems by auto
    then show ?thesis using False by simp
  qed
qed

lemma fresh_Seek:
  fixes xs :: "StreamSample list" and fail :: "error option"
  assumes d: "0 \<le> d" and lo: "MinInt64 < maxt - d" and srt: "sorted (map fst xs)"
  defines "L \<equiv> dropWhile (\<lambda>x. fst x < maxt - d) xs"
  defines "r \<equiv> BufferedSeriesIterator_Seek maxt (NewBufferIterator (newSeriesIterator xs fail) d)"
  shows "Buffer (snd r) = takeWhile (\<lambda>x. fst x < maxt) L
     \<and> fst r = (case dropWhile (\<lambda>x. fst x < maxt) L of [] \<Rightarrow> ValNone | s # ys \<Rightarrow> valueTypeOf s)
     \<and> si_cur (bsi_it (snd r))
         = (case dropWhile (\<lambda>x. fst x < maxt) L of [] \<Rightarrow> None | s # ys \<Rightarrow> Some s)
     \<and> BufferedSeriesIterator_Err (snd r)
         = (case dropWhile (\<lambda>x. fst x < maxt) L of [] \<Rightarrow> fail | s # ys \<Rightarrow> None)"
proof (cases xs)
  case Nil
  have lo': "MinInt64 < maxt" using d lo by simp
  have b0: "NewBufferIterator (newSeriesIterator xs fail) d
      = \<lparr>bsi_it = \<lparr>si_cur = None, si_rest = [], si_fail = fail, si_err = fail\<rparr>,
         bsi_buf = [], bsi_bufDelta = d, bsi_delta = d, lastTime = MinInt64,
         valueType = ValNone\<rparr>"
    by (simp add: Nil NewBufferIterator_def newSeriesIterator_def si_Next_def si_moveTo_def)
  have "r = (ValNone, NewBufferIterator (newSeriesIterator xs fail) d)"
    unfolding r_def b0 using lo'
    by (simp add: BufferedSeriesIterator_Seek_def BufferedSeriesIterator_Next_def Let_def)
  then show ?thesis
    by (simp add: b0 [unfolded Nil] L_def Nil Buffer_def BufferedSeriesIterator_Err_def)
next
  case (Cons s ys)
  define it0 where "it0 = \<lparr>si_cur = Some s, si_rest = ys, si_fail = fail, si_err = None\<rparr>"
  have b0: "NewBufferIterator (newSeriesIterator xs fail) d
      = \<lparr>bsi_it = it0, bsi_buf = [], bsi_bufDelta = d, bsi_delta = d, lastTime = MinInt64,
         valueType = valueTypeOf s\<rparr>"
    by (simp add: Cons NewBufferIterator_def newSeriesIterator_def si_Next_def si_moveTo_def
        it0_def)
  have f0: "si_fail it0 = fail" by (simp add: it0_def)
  have sk: "si_Seek (maxt - d) it0 = si_moveTo L it0"
    by (simp add: si_Seek_def si_moveTo_def L_def Cons it0_def)
  have Lge: "\<forall>x \<in> set L. maxt - d \<le> fst x"
    unfolding L_def using srt by (rule sorted_dropWhile_ge)
  show ?thesis
  proof (cases L)
    case Nil
    have "r = (ValNone, \<lparr>bsi_it = it0\<lparr>si_cur := None, si_rest := [], si_err := fail\<rparr>,
         bsi_buf = [], bsi_bufDelta = d, bsi_delta = d, lastTime = MinInt64,
         valueType = ValNone\<rparr>)"
      unfolding r_def b0 using lo valueTypeOf_not_None [of s]
      by (simp add: BufferedSeriesIterator_Seek_def Let_def sk Nil si_moveTo_def f0)
    then show ?thesis
      by (simp add: Nil Buffer_def BufferedSeriesIterator_Err_def it0_def)
  next
    case (Cons c rest)
    define b1 where "b1 = \<lparr>bsi_it = it0\<lparr>si_cur := Some c, si_rest := rest\<rparr>,
         bsi_buf = [], bsi_bufDelta = d, bsi_delta = d, lastTime = fst c,
         valueType = valueTypeOf c\<rparr>"
    have mv: "si_moveTo L it0 = (valueTypeOf c, it0\<lparr>si_cur := Some c, si_rest := rest\<rparr>)"
      by (simp add: Cons si_moveTo_def)
    show ?thesis
    proof (cases "fst c \<ge> maxt")
      case True
      have "r = (valueTypeOf c, b1)"
        unfolding r_def b0 using lo valueTypeOf_not_None [of s] valueTypeOf_not_None [of c] True
        by (simp add: BufferedSeriesIterator_Seek_def Let_def sk mv si_At_def b1_def
            del: BufferedSeriesIterator_advance.simps)
      then show ?thesis using True
        by (simp add: Cons Buffer_def BufferedSeriesIterator_Err_def b1_def it0_def)
    next
      case False
      have rr: "r = (valueType (BufferedSeriesIterator_advance maxt b1),
                    BufferedSeriesIterator_advance maxt b1)"
        unfolding r_def b0 using lo valueTypeOf_not_None [of s] valueTypeOf_not_None [of c] False
        by (simp add: BufferedSeriesIterator_Seek_def Let_def sk mv si_At_def b1_def
            del: BufferedSeriesIterator_advance.simps)
      have sp: "bsi_buf (BufferedSeriesIterator_advance maxt b1)
           = bsi_buf b1 @ takeWhile (\<lambda>x. fst x < maxt) (c # rest)
         \<and> valueType (BufferedSeriesIterator_advance maxt b1)
           = (case dropWhile (\<lambda>x. fst x < maxt) rest of [] \<Rightarrow> ValNone | s # xs \<Rightarrow> valueTypeOf s)
         \<and> si_cur (bsi_it (BufferedSeriesIterator_advance maxt b1))
           = (case dropWhile (\<lambda>x. fst x < maxt) rest of [] \<Rightarrow> None | s # xs \<Rightarrow> Some s)
         \<and> si_err (bsi_it (BufferedSeriesIterator_advance maxt b1))
           = (case dropWhile (\<lambda>x. fst x < maxt) rest of [] \<Rightarrow> si_fail (bsi_it b1)
              | s # xs \<Rightarrow> si_err (bsi_it b1))"
        by (rule advance_spec [where c = c and r = rest])
           (use False d Lge Cons in \<open>auto simp: b1_def valueTypeOf_not_None
               simp del: BufferedSeriesIterator_advance.simps\<close>)
      have keep: "bsi_buf b1 = []" "si_fail (bsi_it b1) = fail" "si_err (bsi_it b1) = None"
        by (simp_all add: b1_def it0_def)
      have dw: "dropWhile (\<lambda>x. fst x < maxt) L = dropWhile (\<lambda>x. fst x < maxt) rest"
        using False by (simp add: Cons)
      show ?thesis unfolding rr dw using sp unfolding keep
        by (simp add: Buffer_def BufferedSeriesIterator_Err_def Cons
            del: BufferedSeriesIterator_advance.simps)
    qed
  qed
qed


lemma update_last: "out \<noteq> [] \<Longrightarrow> out[length out - Suc 0 := p] = butlast out @ [p]"
  by (induction out rule: rev_induct) simp_all

lemma sorted_tail_gt:
  "sorted (map fst (x # xs)) \<Longrightarrow> (m::int) < fst x \<Longrightarrow> \<forall>y \<in> set xs. m < fst y"
  by auto

lemma selectPoints_buffer_ext_floats:
  assumes "sorted (map fst fb)"
  shows "selectPoints_buffer True mint (floatSamples fb) out (out \<noteq> [])
     = Some ((if filter (\<lambda>s. fst s \<le> mint) (notStale fb) = [] then out
              else butlast out @ [samplePoint (last (filter (\<lambda>s. fst s \<le> mint) (notStale fb)))])
             @ map samplePoint (filter (\<lambda>s. mint < fst s) (notStale fb)))"
  using assms
proof (induction fb arbitrary: out)
  case Nil
  show ?case by (simp add: floatSamples_def notStale_def)
next
  case (Cons x fb)
  obtain t v where x: "x = (t, v)" by (cases x)
  have srt: "sorted (map fst fb)" using Cons.prems by simp
  note ih = Cons.IH [OF srt]
  have fs: "floatSamples (x # fb) = (t, FloatValue v) # floatSamples fb"
    by (simp add: floatSamples_def x)
  show ?case
  proof (cases "IsStaleNaN v")
    case True
    have "selectPoints_buffer True mint (floatSamples (x # fb)) out (out \<noteq> [])
        = selectPoints_buffer True mint (floatSamples fb) out (out \<noteq> [])"
      using True by (simp add: fs)
    moreover have "notStale (x # fb) = notStale fb" using True by (simp add: notStale_def x)
    ultimately show ?thesis using ih [of out] by simp
  next
    case False
    have ns: "notStale (x # fb) = x # notStale fb" using False by (simp add: notStale_def x)
    show ?thesis
    proof (cases "t > mint")
      case True
      have all: "\<forall>y \<in> set fb. mint < fst y"
        using sorted_tail_gt [OF Cons.prems, of mint] True by (simp add: x)
      then have pre: "filter (\<lambda>s. fst s \<le> mint) (notStale fb) = []"
        by (auto simp: notStale_def filter_empty_conv)
      have step: "selectPoints_buffer True mint (floatSamples (x # fb)) out (out \<noteq> [])
          = selectPoints_buffer True mint (floatSamples fb) (out @ [floatPoint t v])
              (out @ [floatPoint t v] \<noteq> [])"
        using True False by (simp add: fs)
      show ?thesis unfolding step ih [of "out @ [floatPoint t v]"] ns
        using True pre by (simp add: x samplePoint_def)
    next
      case le: False
      show ?thesis
      proof (cases "out = []")
        case True
        have step: "selectPoints_buffer True mint (floatSamples (x # fb)) out (out \<noteq> [])
            = selectPoints_buffer True mint (floatSamples fb) [floatPoint t v]
                ([floatPoint t v] \<noteq> [])"
          using True le False by (simp add: fs)
        show ?thesis unfolding step ih [of "[floatPoint t v]"] ns
          using le True by (simp add: x samplePoint_def)
      next
        case ne: False
        have step: "selectPoints_buffer True mint (floatSamples (x # fb)) out (out \<noteq> [])
            = selectPoints_buffer True mint (floatSamples fb) (butlast out @ [floatPoint t v])
                (butlast out @ [floatPoint t v] \<noteq> [])"
          using ne le False by (simp add: fs update_last)
        show ?thesis unfolding step ih [of "butlast out @ [floatPoint t v]"] ns
          using le ne by (simp add: x samplePoint_def)
      qed
    qed
  qed
qed


lemma sorted_dropWhile_filter:
  fixes xs :: "(int \<times> 'b) list"
  shows "sorted (map fst xs) \<Longrightarrow>
    dropWhile (\<lambda>x. fst x < a) xs = filter (\<lambda>x. a \<le> fst x) xs"
proof (induction xs)
  case Nil
  show ?case by simp
next
  case (Cons x xs)
  show ?case
  proof (cases "fst x < a")
    case True
    then show ?thesis using Cons by simp
  next
    case False
    then have "\<forall>y \<in> set xs. a \<le> fst y" using Cons.prems by auto
    then have "filter (\<lambda>x. a \<le> fst x) xs = xs" by (simp add: filter_id_conv)
    then show ?thesis using False by simp
  qed
qed

lemma sorted_takeWhile_filter:
  fixes xs :: "(int \<times> 'b) list"
  shows "sorted (map fst xs) \<Longrightarrow>
    takeWhile (\<lambda>x. fst x < b) xs = filter (\<lambda>x. fst x < b) xs"
proof (induction xs)
  case Nil
  show ?case by simp
next
  case (Cons x xs)
  show ?case
  proof (cases "fst x < b")
    case True
    then show ?thesis using Cons by simp
  next
    case False
    then have "\<forall>y \<in> set xs. \<not> fst y < b" using Cons.prems by auto
    then have "filter (\<lambda>x. fst x < b) xs = []" by (simp add: filter_empty_conv)
    then show ?thesis using False by simp
  qed
qed

lemma sorted_filter_le_split:
  fixes xs :: "(int \<times> 'b) list"
  shows "sorted (map fst xs) \<Longrightarrow>
    filter (\<lambda>x. P x \<and> fst x \<le> b) xs
      = filter (\<lambda>x. P x \<and> fst x < b) xs @ filter (\<lambda>x. P x \<and> fst x = b) xs"
proof (induction xs)
  case Nil
  show ?case by simp
next
  case (Cons x xs)
  have ih: "filter (\<lambda>x. P x \<and> fst x \<le> b) xs
      = filter (\<lambda>x. P x \<and> fst x < b) xs @ filter (\<lambda>x. P x \<and> fst x = b) xs"
    using Cons by simp
  show ?case
  proof (cases "fst x < b")
    case True
    then show ?thesis using ih by simp
  next
    case False
    then have "\<forall>y \<in> set xs. \<not> fst y < b" using Cons.prems by auto
    then have e: "filter (\<lambda>x. P x \<and> fst x < b) xs = []" by (simp add: filter_empty_conv)
    show ?thesis using False ih e by auto
  qed
qed

lemma strict_sorted_filter_eq:
  fixes xs :: "(int \<times> 'b) list"
  shows "sorted_wrt (<) (map fst xs) \<Longrightarrow>
    filter (\<lambda>x. P x \<and> fst x = b) xs
      = (case filter (\<lambda>x. b \<le> fst x) xs of [] \<Rightarrow> []
         | s # ys \<Rightarrow> if fst s = b \<and> P s then [s] else [])"
proof (induction xs)
  case Nil
  show ?case by simp
next
  case (Cons x xs)
  show ?case
  proof (cases "fst x < b")
    case True
    then show ?thesis using Cons by simp
  next
    case False
    then have "\<forall>y \<in> set xs. fst y \<noteq> b" using Cons.prems by auto
    then have "filter (\<lambda>x. P x \<and> fst x = b) xs = []" by (simp add: filter_empty_conv)
    then show ?thesis using False by auto
  qed
qed

lemma strict_sorted_imp_sorted:
  fixes xs :: "(int \<times> 'b) list"
  shows "sorted_wrt (<) (map fst xs) \<Longrightarrow> sorted (map fst xs)"
  by (simp add: strict_sorted_imp_sorted)

lemma floatSamples_fst: "map fst (floatSamples fl) = map fst fl"
  by (simp add: floatSamples_def comp_def)

lemma floatSamples_takeWhile:
  "takeWhile (\<lambda>x. fst x < b) (floatSamples fl) = floatSamples (takeWhile (\<lambda>x. fst x < b) fl)"
  by (simp add: floatSamples_def takeWhile_map comp_def)

lemma floatSamples_dropWhile:
  "dropWhile (\<lambda>x. fst x < b) (floatSamples fl) = floatSamples (dropWhile (\<lambda>x. fst x < b) fl)"
  by (simp add: floatSamples_def dropWhile_map comp_def)


lemma floatSamples_Nil_iff: "floatSamples fl = [] \<longleftrightarrow> fl = []"
  by (simp add: floatSamples_def)

lemma selectPoints_sought_floats:
  assumes "fst r = (case floatSamples pf of [] \<Rightarrow> ValNone | s # ys \<Rightarrow> valueTypeOf s)"
    and "si_cur (bsi_it (snd r)) = (case floatSamples pf of [] \<Rightarrow> None | s # ys \<Rightarrow> Some s)"
  shows "selectPoints_sought (fst r) (snd r) maxt out
     = out @ (case pf of [] \<Rightarrow> []
              | s # ys \<Rightarrow> if fst s = maxt \<and> \<not> IsStaleNaN (snd s) then [samplePoint s] else [])"
proof (cases pf)
  case Nil
  then show ?thesis using assms by (simp add: floatSamples_def selectPoints_sought_def)
next
  case (Cons s ys)
  have "fst r = ValFloat" using assms(1) by (simp add: Cons floatSamples_def)
  moreover have "si_At (bsi_it (snd r)) = (fst s, FloatValue (snd s))"
    using assms(2) by (simp add: Cons floatSamples_def si_At_def)
  ultimately show ?thesis
    by (simp add: Cons selectPoints_sought_def samplePoint_def split: prod.splits)
qed

text \<open>
  Claim C5, for the first evaluation of a series. Take an extended range function, a
  series of float samples with increasing timestamps, a window with \<open>mint < maxt\<close>, no
  points of an earlier step, and a fresh buffer that looks back over the range and the
  lookback, as \<open>loadSeries\<close> makes it. Then \<open>selectPoints\<close> returns the latest sample that
  is not stale with a timestamp in \<open>[mint - lookback, mint]\<close>, if there is one, followed by
  the samples that are not stale with a timestamp in \<open>(mint, maxt]\<close>. A sample before
  \<open>mint - lookback\<close> is never part of the result.
\<close>

theorem first_evaluation_extended_window:
  fixes fl :: "(int \<times> float64) list"
  assumes ext: "isExt functionName" and lb: "0 \<le> lookback" and win: "mint < maxt"
    and srt: "sorted_wrt (<) (map fst fl)" and lo: "MinInt64 < mint - lookback"
  shows "fst (selectPoints isExt
            (NewBufferIterator (newSeriesIterator (floatSamples fl) None)
               (maxt - mint + lookback))
            mint maxt [] functionName lookback)
     = Inr ((if filter (\<lambda>s. mint - lookback \<le> fst s \<and> fst s \<le> mint) (notStale fl) = [] then []
             else [samplePoint (last (filter (\<lambda>s. mint - lookback \<le> fst s \<and> fst s \<le> mint)
                                        (notStale fl)))])
            @ map samplePoint (filter (\<lambda>s. mint < fst s \<and> fst s \<le> maxt) (notStale fl)))"
proof -
  define d where "d = maxt - mint + lookback"
  define t0 where "t0 = mint - lookback"
  define fl0 where "fl0 = filter (\<lambda>s. t0 \<le> fst s) fl"
  define fb where "fb = filter (\<lambda>s. fst s < maxt) fl0"
  define pf where "pf = filter (\<lambda>s. maxt \<le> fst s) fl"
  define r where "r = BufferedSeriesIterator_Seek maxt
      (NewBufferIterator (newSeriesIterator (floatSamples fl) None) d)"
  have d0: "0 \<le> d" "maxt - d = t0" "MinInt64 < maxt - d" "t0 \<le> mint"
    using lb win lo by (simp_all add: d_def t0_def)
  have s1: "sorted (map fst fl)" using srt by (rule strict_sorted_imp_sorted)
  have s0: "sorted (map fst fl0)" unfolding fl0_def using s1 by (rule sorted_filter)
  have sx: "sorted (map fst (floatSamples fl))" using s1 by (simp add: floatSamples_fst)
  have L: "dropWhile (\<lambda>x. fst x < maxt - d) (floatSamples fl) = floatSamples fl0"
    unfolding d0(2) floatSamples_dropWhile fl0_def
    using sorted_dropWhile_filter [OF s1, of t0] by simp
  have B: "takeWhile (\<lambda>x. fst x < maxt) (floatSamples fl0) = floatSamples fb"
    unfolding floatSamples_takeWhile fb_def
    using sorted_takeWhile_filter [OF s0, of maxt] by simp
  have pf0: "filter (\<lambda>s. maxt \<le> fst s) fl0 = pf"
    unfolding fl0_def pf_def filter_filter using d0(4) win
    by (intro filter_cong) auto
  have P: "dropWhile (\<lambda>x. fst x < maxt) (floatSamples fl0) = floatSamples pf"
    unfolding floatSamples_dropWhile
    using sorted_dropWhile_filter [OF s0, of maxt] pf0 by simp
  have seek: "Buffer (snd r) = floatSamples fb
     \<and> fst r = (case floatSamples pf of [] \<Rightarrow> ValNone | s # ys \<Rightarrow> valueTypeOf s)
     \<and> si_cur (bsi_it (snd r)) = (case floatSamples pf of [] \<Rightarrow> None | s # ys \<Rightarrow> Some s)
     \<and> BufferedSeriesIterator_Err (snd r)
         = (case floatSamples pf of [] \<Rightarrow> None | s # ys \<Rightarrow> None)"
    using fresh_Seek [OF d0(1) d0(3) sx, of None] unfolding L B P r_def by simp
  have err: "BufferedSeriesIterator_Err (snd r) = None"
    using seek by (cases "floatSamples pf") simp_all
  define pre where "pre = filter (\<lambda>s. fst s \<le> mint) (notStale fb)"
  define post where "post = filter (\<lambda>s. mint < fst s) (notStale fb)"
  have sb: "sorted (map fst fb)" unfolding fb_def using s0 by (rule sorted_filter)
  have loop: "selectPoints_buffer True mint (floatSamples fb) [] False
      = Some ((if pre = [] then [] else [samplePoint (last pre)]) @ map samplePoint post)"
    using selectPoints_buffer_ext_floats [OF sb, of mint "[]"] by (simp add: pre_def post_def)
  have sought: "selectPoints_sought (fst r) (snd r) maxt out
     = out @ (case pf of [] \<Rightarrow> []
              | s # ys \<Rightarrow> if fst s = maxt \<and> \<not> IsStaleNaN (snd s) then [samplePoint s] else [])"
    for out
    using seek by (intro selectPoints_sought_floats) simp_all
  have result: "fst (selectPoints isExt
            (NewBufferIterator (newSeriesIterator (floatSamples fl) None) d)
            mint maxt [] functionName lookback)
      = Inr (((if pre = [] then [] else [samplePoint (last pre)]) @ map samplePoint post)
             @ (case pf of [] \<Rightarrow> []
                | s # ys \<Rightarrow> if fst s = maxt \<and> \<not> IsStaleNaN (snd s) then [samplePoint s] else []))"
  proof -
    obtain vt it' where vi: "r = (vt, it')" by (cases r)
    have sk: "BufferedSeriesIterator_Seek maxt
        (NewBufferIterator (newSeriesIterator (floatSamples fl) None) d) = (vt, it')"
      using vi by (simp add: r_def)
    have e: "BufferedSeriesIterator_Err it' = None" "Buffer it' = floatSamples fb"
      using err seek vi by simp_all
    show ?thesis
      using sought [of "(if pre = [] then [] else [samplePoint (last pre)]) @ map samplePoint post"]
      by (simp add: selectPoints_def selectPoints_reuse_def Let_def sk e ext loop vi)
  qed
  have pre_eq: "pre = filter (\<lambda>s. mint - lookback \<le> fst s \<and> fst s \<le> mint) (notStale fl)"
    unfolding pre_def notStale_def fb_def fl0_def filter_filter t0_def using win
    by (intro filter_cong) auto
  have post_eq: "post = filter (\<lambda>s. (\<not> IsStaleNaN (snd s) \<and> mint < fst s) \<and> fst s < maxt) fl"
    unfolding post_def notStale_def fb_def fl0_def filter_filter using d0(4)
    by (intro filter_cong) auto
  have at_eq: "(case pf of [] \<Rightarrow> []
                | s # ys \<Rightarrow> if fst s = maxt \<and> \<not> IsStaleNaN (snd s) then [s] else [])
      = filter (\<lambda>s. (\<not> IsStaleNaN (snd s) \<and> mint < fst s) \<and> fst s = maxt) fl"
    unfolding strict_sorted_filter_eq [OF srt] pf_def using win
    by (cases "filter (\<lambda>s. maxt \<le> fst s) fl") auto
  have in_eq: "filter (\<lambda>s. mint < fst s \<and> fst s \<le> maxt) (notStale fl)
      = post @ (case pf of [] \<Rightarrow> []
                | s # ys \<Rightarrow> if fst s = maxt \<and> \<not> IsStaleNaN (snd s) then [s] else [])"
  proof -
    have "filter (\<lambda>s. mint < fst s \<and> fst s \<le> maxt) (notStale fl)
        = filter (\<lambda>s. (\<not> IsStaleNaN (snd s) \<and> mint < fst s) \<and> fst s \<le> maxt) fl"
      unfolding notStale_def filter_filter by (intro filter_cong) auto
    also have "\<dots> = filter (\<lambda>s. (\<not> IsStaleNaN (snd s) \<and> mint < fst s) \<and> fst s < maxt) fl
        @ filter (\<lambda>s. (\<not> IsStaleNaN (snd s) \<and> mint < fst s) \<and> fst s = maxt) fl"
      by (rule sorted_filter_le_split [OF s1])
    finally show ?thesis unfolding post_eq at_eq .
  qed
  have map_at: "map samplePoint (case pf of [] \<Rightarrow> []
                | s # ys \<Rightarrow> if fst s = maxt \<and> \<not> IsStaleNaN (snd s) then [s] else [])
      = (case pf of [] \<Rightarrow> []
                | s # ys \<Rightarrow> if fst s = maxt \<and> \<not> IsStaleNaN (snd s) then [samplePoint s] else [])"
    by (cases pf) simp_all
  show ?thesis
    using result unfolding d_def pre_eq [symmetric] in_eq map_append map_at by simp
qed


theorem first_evaluation_extended_window_witness:
  "fst (selectPoints (\<lambda>n. n = ''xrate'')
          (NewBufferIterator (newSeriesIterator
             (floatSamples [(240000, 0x4059000000000000), (481000, 0x405B800000000000)]) None)
             (600000 - 480000 + 300000))
          480000 600000 [] ''xrate'' 300000)
     = Inr [floatPoint 240000 0x4059000000000000, floatPoint 481000 0x405B800000000000]"
  using first_evaluation_extended_window [of "\<lambda>n. n = ''xrate''" "''xrate''" 300000 480000 600000
      "[(240000, 0x4059000000000000), (481000, 0x405B800000000000)]"]
  by (simp add: notStale_def samplePoint_def IsStaleNaN_def StaleNaN_def MinInt64_def)

text \<open>
  Claim C5 as it is stated fails for a series that has a histogram sample at \<open>mint\<close>:
  histogram samples at or after \<open>mint\<close> are kept, so the result holds the float sample
  before \<open>mint\<close> and the histogram at \<open>mint\<close>, two points that are not after \<open>mint\<close>.
\<close>

theorem histogram_at_window_start_counterexample:
  "fst (selectPoints (\<lambda>n. n = ''xrate'')
          (NewBufferIterator (newSeriesIterator
             [(8, FloatValue 0x3FF0000000000000), (10, HistogramValue (FloatHistogram 0))] None)
             (20 - 10 + 5))
          10 20 [] ''xrate'' 5)
     = Inr [floatPoint 8 0x3FF0000000000000, histogramPoint 10 (Some (FloatHistogram 0))]
   \<and> length (filter (\<lambda>p. pt_T p \<le> 10)
        [floatPoint 8 0x3FF0000000000000, histogramPoint 10 (Some (FloatHistogram 0))]) = 2
   \<and> \<not> IsStaleNaN 0x3FF0000000000000"
  by (simp add: selectPoints_def selectPoints_reuse_def selectPoints_drop_def selectPoints_sought_def
      NewBufferIterator_def newSeriesIterator_def si_Next_def si_moveTo_def si_Seek_def si_At_def
      BufferedSeriesIterator_Seek_def BufferedSeriesIterator_Next_def BufferedSeriesIterator_Err_def
      Buffer_def ReduceDelta_def sampleRing_add_def MinInt64_def
      IsStaleNaN_def StaleNaN_def Let_def floatPoint_def histogramPoint_def)

section \<open>Load errors and cancellation\<close>

text \<open>
  Claim C3, as the code has it. When the storage fails to load the series, the call that
  runs the load (\<open>Next\<close> or \<open>Series\<close>, on either selector) returns that error. The load
  is not run again and the error is not kept: \<open>sync.Once\<close> is done and the error was a
  local variable. A later \<open>Series\<close> returns the empty list of series and no error, and
  a later \<open>Next\<close> returns an empty batch and no error.
\<close>

theorem load_error_not_kept:
  assumes vload: "vs_storage vsel ctx (vs_shard vsel) (vs_numShards vsel) = Inl err"
    and vfresh: "\<not> vs_once vsel" "vs_scanners vsel = []" "vs_series vsel = []"
    and vstep: "vs_currentStep vsel \<le> vs_maxt vsel"
    and mload: "ms_storage msel ctx (ms_shard msel) (ms_numShards msel) = Inl err"
    and mfresh: "\<not> ms_once msel" "ms_scanners msel = []" "ms_series msel = []"
    and mstep: "ms_currentStep msel \<le> ms_maxt msel"
    and live: "errAtEntry ctx = None" "errAtEntry ctx' = None"
  shows "vectorSelector_Next ctx vsel = (Inl err, vsel\<lparr>vs_once := True\<rparr>)
     \<and> vectorSelector_Series ctx vsel = (Inl err, vsel\<lparr>vs_once := True\<rparr>)
     \<and> vectorSelector_Series ctx' (vsel\<lparr>vs_once := True\<rparr>) = (Inr [], vsel\<lparr>vs_once := True\<rparr>)
     \<and> fst (vectorSelector_Next ctx' (vsel\<lparr>vs_once := True\<rparr>)) = Inr (Some [])
     \<and> matrixSelector_Next fn ctx msel = (Inl (Error err), msel\<lparr>ms_once := True\<rparr>)
     \<and> matrixSelector_Series fn ctx msel = (Inl err, msel\<lparr>ms_once := True\<rparr>)
     \<and> matrixSelector_Series fn ctx' (msel\<lparr>ms_once := True\<rparr>) = (Inr [], msel\<lparr>ms_once := True\<rparr>)
     \<and> fst (matrixSelector_Next fn ctx' (msel\<lparr>ms_once := True\<rparr>)) = Inr (Some [])"
proof -
  have v1: "vectorSelector_loadSeries ctx vsel = (Some err, vsel\<lparr>vs_once := True\<rparr>)"
    using vload vfresh(1) by (simp add: vectorSelector_loadSeries_def)
  have v2: "vectorSelector_loadSeries ctx' (vsel\<lparr>vs_once := True\<rparr>) = (None, vsel\<lparr>vs_once := True\<rparr>)"
    by (simp add: vectorSelector_loadSeries_def)
  have m1: "matrixSelector_loadSeries fn ctx msel = (Some err, msel\<lparr>ms_once := True\<rparr>)"
    using mload mfresh(1) by (simp add: matrixSelector_loadSeries_def)
  have m2: "matrixSelector_loadSeries fn ctx' (msel\<lparr>ms_once := True\<rparr>) = (None, msel\<lparr>ms_once := True\<rparr>)"
    by (simp add: matrixSelector_loadSeries_def)
  have a: "vectorSelector_Next ctx vsel = (Inl err, vsel\<lparr>vs_once := True\<rparr>)"
    using vstep by (simp add: vectorSelector_Next_def v1)
  have b: "vectorSelector_Series ctx vsel = (Inl err, vsel\<lparr>vs_once := True\<rparr>)"
    by (simp add: vectorSelector_Series_def v1)
  have c: "vectorSelector_Series ctx' (vsel\<lparr>vs_once := True\<rparr>) = (Inr [], vsel\<lparr>vs_once := True\<rparr>)"
    using vfresh(3) by (simp add: vectorSelector_Series_def v2)
  have d: "fst (vectorSelector_Next ctx' (vsel\<lparr>vs_once := True\<rparr>)) = Inr (Some [])"
    using vstep vfresh(2) by (simp add: vectorSelector_Next_def v2 Let_def GetVectorBatch_def)
  have e: "matrixSelector_Next fn ctx msel = (Inl (Error err), msel\<lparr>ms_once := True\<rparr>)"
    using mstep live(1) by (simp add: matrixSelector_Next_def m1)
  have f: "matrixSelector_Series fn ctx msel = (Inl err, msel\<lparr>ms_once := True\<rparr>)"
    by (simp add: matrixSelector_Series_def m1)
  have g: "matrixSelector_Series fn ctx' (msel\<lparr>ms_once := True\<rparr>) = (Inr [], msel\<lparr>ms_once := True\<rparr>)"
    using mfresh(3) by (simp add: matrixSelector_Series_def m2)
  have h: "fst (matrixSelector_Next fn ctx' (msel\<lparr>ms_once := True\<rparr>)) = Inr (Some [])"
    using mstep mfresh(2) live(2) by (simp add: matrixSelector_Next_def m2 Let_def GetVectorBatch_def)
  show ?thesis using a b c d e f g h by (intro conjI)
qed


theorem load_error_not_kept_witness:
  "vectorSelector_Next \<lparr>errAtEntry = None, errAtReturn = None\<rparr>
       (NewVectorSelector (\<lambda>c a b. Inl (StorageError ''down'')) 0 10 5 0 10 0 1)
     = (Inl (StorageError ''down''),
        (NewVectorSelector (\<lambda>c a b. Inl (StorageError ''down'')) 0 10 5 0 10 0 1)\<lparr>vs_once := True\<rparr>)
   \<and> fst (vectorSelector_Next \<lparr>errAtEntry = None, errAtReturn = None\<rparr>
       ((NewVectorSelector (\<lambda>c a b. Inl (StorageError ''down'')) 0 10 5 0 10 0 1)\<lparr>vs_once := True\<rparr>))
     = Inr (Some [])
   \<and> matrixSelector_Next
       \<lparr>IsExtFunction = (\<lambda>n. False),
        InvalidSample = \<lparr>sample_Point = \<lparr>pt_T = -1, pt_V = 0, pt_H = None\<rparr>, sample_Metric = []\<rparr>,
        DropMetricName = (\<lambda>l. l)\<rparr>
       \<lparr>errAtEntry = None, errAtReturn = None\<rparr>
       (NewMatrixSelector (\<lambda>c a b. Inl (StorageError ''down''))
          (\<lambda>a. \<lparr>sample_Point = \<lparr>pt_T = fa_StepTime a, pt_V = 0, pt_H = None\<rparr>, sample_Metric = []\<rparr>)
          ''rate'' 3 0 10 5 10 0 0 1 0)
     = (Inl (Error (StorageError ''down'')),
        (NewMatrixSelector (\<lambda>c a b. Inl (StorageError ''down''))
          (\<lambda>a. \<lparr>sample_Point = \<lparr>pt_T = fa_StepTime a, pt_V = 0, pt_H = None\<rparr>, sample_Metric = []\<rparr>)
          ''rate'' 3 0 10 5 10 0 0 1 0)\<lparr>ms_once := True\<rparr>)
   \<and> fst (matrixSelector_Next
       \<lparr>IsExtFunction = (\<lambda>n. False),
        InvalidSample = \<lparr>sample_Point = \<lparr>pt_T = -1, pt_V = 0, pt_H = None\<rparr>, sample_Metric = []\<rparr>,
        DropMetricName = (\<lambda>l. l)\<rparr>
       \<lparr>errAtEntry = None, errAtReturn = None\<rparr>
       ((NewMatrixSelector (\<lambda>c a b. Inl (StorageError ''down''))
          (\<lambda>a. \<lparr>sample_Point = \<lparr>pt_T = fa_StepTime a, pt_V = 0, pt_H = None\<rparr>, sample_Metric = []\<rparr>)
          ''rate'' 3 0 10 5 10 0 0 1 0)\<lparr>ms_once := True\<rparr>))
     = Inr (Some [])"
  using load_error_not_kept [of
      "NewVectorSelector (\<lambda>c a b. Inl (StorageError ''down'')) 0 10 5 0 10 0 1"
      "\<lparr>errAtEntry = None, errAtReturn = None\<rparr>" "StorageError ''down''"
      "NewMatrixSelector (\<lambda>c a b. Inl (StorageError ''down''))
          (\<lambda>a. \<lparr>sample_Point = \<lparr>pt_T = fa_StepTime a, pt_V = 0, pt_H = None\<rparr>, sample_Metric = []\<rparr>)
          ''rate'' 3 0 10 5 10 0 0 1 0"
      "\<lparr>errAtEntry = None, errAtReturn = None\<rparr>"
      "\<lparr>IsExtFunction = (\<lambda>n. False),
        InvalidSample = \<lparr>sample_Point = \<lparr>pt_T = -1, pt_V = 0, pt_H = None\<rparr>, sample_Metric = []\<rparr>,
        DropMetricName = (\<lambda>l. l)\<rparr>"]
  by (simp add: NewVectorSelector_def NewMatrixSelector_def)

text \<open>
  The part of claim C3 on later pulls fails on both selectors: the first pull returns
  the load error, the second an empty batch.
\<close>

theorem load_error_not_kept_counterexample:
  "fst (vectorSelector_Next \<lparr>errAtEntry = None, errAtReturn = None\<rparr>
          (NewVectorSelector (\<lambda>c a b. Inl (StorageError ''down'')) 0 10 5 0 10 0 1))
     = Inl (StorageError ''down'')
   \<and> fst (vectorSelector_Next \<lparr>errAtEntry = None, errAtReturn = None\<rparr>
          (snd (vectorSelector_Next \<lparr>errAtEntry = None, errAtReturn = None\<rparr>
             (NewVectorSelector (\<lambda>c a b. Inl (StorageError ''down'')) 0 10 5 0 10 0 1))))
     = Inr (Some [])
   \<and> fst (matrixSelector_Next
          \<lparr>IsExtFunction = (\<lambda>n. False),
           InvalidSample = \<lparr>sample_Point = \<lparr>pt_T = -1, pt_V = 0, pt_H = None\<rparr>, sample_Metric = []\<rparr>,
           DropMetricName = (\<lambda>l. l)\<rparr>
          \<lparr>errAtEntry = None, errAtReturn = None\<rparr>
          (NewMatrixSelector (\<lambda>c a b. Inl (StorageError ''down''))
             (\<lambda>a. \<lparr>sample_Point = \<lparr>pt_T = fa_StepTime a, pt_V = 0, pt_H = None\<rparr>, sample_Metric = []\<rparr>)
             ''rate'' 3 0 10 5 10 0 0 1 0))
     = Inl (Error (StorageError ''down''))
   \<and> fst (matrixSelector_Next
          \<lparr>IsExtFunction = (\<lambda>n. False),
           InvalidSample = \<lparr>sample_Point = \<lparr>pt_T = -1, pt_V = 0, pt_H = None\<rparr>, sample_Metric = []\<rparr>,
           DropMetricName = (\<lambda>l. l)\<rparr>
          \<lparr>errAtEntry = None, errAtReturn = None\<rparr>
          (snd (matrixSelector_Next
             \<lparr>IsExtFunction = (\<lambda>n. False),
              InvalidSample = \<lparr>sample_Point = \<lparr>pt_T = -1, pt_V = 0, pt_H = None\<rparr>, sample_Metric = []\<rparr>,
              DropMetricName = (\<lambda>l. l)\<rparr>
             \<lparr>errAtEntry = None, errAtReturn = None\<rparr>
             (NewMatrixSelector (\<lambda>c a b. Inl (StorageError ''down''))
                (\<lambda>a. \<lparr>sample_Point = \<lparr>pt_T = fa_StepTime a, pt_V = 0, pt_H = None\<rparr>, sample_Metric = []\<rparr>)
                ''rate'' 3 0 10 5 10 0 0 1 0))))
     = Inr (Some [])"
  by (simp add: NewVectorSelector_def NewMatrixSelector_def vectorSelector_Next_def
      matrixSelector_Next_def vectorSelector_loadSeries_def matrixSelector_loadSeries_def
      GetVectorBatch_def Let_def)

text \<open>
  Claim C8, as the code has it. A pull on the matrix selector reads the token once,
  before anything else: when the token is done at that moment the pull returns the
  token's error and leaves the operator as it was, so a later pull that finds the token
  done returns its error as well.
\<close>

theorem cancellation_checked_on_entry:
  assumes "errAtEntry ctx = Some err" and "errAtEntry ctx' = Some err'"
  shows "matrixSelector_Next fn ctx msel = (Inl (Error err), msel)
     \<and> matrixSelector_Next fn ctx' (snd (matrixSelector_Next fn ctx msel)) = (Inl (Error err'), msel)"
  using assms by (simp add: matrixSelector_Next_def)

theorem cancellation_checked_on_entry_witness:
  "matrixSelector_Next
       \<lparr>IsExtFunction = (\<lambda>n. False),
        InvalidSample = \<lparr>sample_Point = \<lparr>pt_T = -1, pt_V = 0, pt_H = None\<rparr>, sample_Metric = []\<rparr>,
        DropMetricName = (\<lambda>l. l)\<rparr>
       \<lparr>errAtEntry = Some Canceled, errAtReturn = Some Canceled\<rparr>
       (NewMatrixSelector
          (\<lambda>c a b. Inr [\<lparr>sg_labels = [], sg_signature = 7,
                          sg_samples = [(10, FloatValue 0x3FF0000000000000)], sg_fail = None\<rparr>])
          (\<lambda>a. \<lparr>sample_Point = \<lparr>pt_T = fa_StepTime a, pt_V = 0x3FF0000000000000, pt_H = None\<rparr>,
                 sample_Metric = []\<rparr>)
          ''rate'' 1 10 10 0 10 0 0 1 0)
     = (Inl (Error Canceled),
        NewMatrixSelector
          (\<lambda>c a b. Inr [\<lparr>sg_labels = [], sg_signature = 7,
                          sg_samples = [(10, FloatValue 0x3FF0000000000000)], sg_fail = None\<rparr>])
          (\<lambda>a. \<lparr>sample_Point = \<lparr>pt_T = fa_StepTime a, pt_V = 0x3FF0000000000000, pt_H = None\<rparr>,
                 sample_Metric = []\<rparr>)
          ''rate'' 1 10 10 0 10 0 0 1 0)"
  using cancellation_checked_on_entry [of "\<lparr>errAtEntry = Some Canceled, errAtReturn = Some Canceled\<rparr>"
      Canceled "\<lparr>errAtEntry = Some Canceled, errAtReturn = Some Canceled\<rparr>" Canceled
      "\<lparr>IsExtFunction = (\<lambda>n. False),
        InvalidSample = \<lparr>sample_Point = \<lparr>pt_T = -1, pt_V = 0, pt_H = None\<rparr>, sample_Metric = []\<rparr>,
        DropMetricName = (\<lambda>l. l)\<rparr>"
      "NewMatrixSelector
          (\<lambda>c a b. Inr [\<lparr>sg_labels = [], sg_signature = 7,
                          sg_samples = [(10, FloatValue 0x3FF0000000000000)], sg_fail = None\<rparr>])
          (\<lambda>a. \<lparr>sample_Point = \<lparr>pt_T = fa_StepTime a, pt_V = 0x3FF0000000000000, pt_H = None\<rparr>,
                 sample_Metric = []\<rparr>)
          ''rate'' 1 10 10 0 10 0 0 1 0"]
  by simp

text \<open>
  No pull reads the token again before it returns its batch: a token that is cancelled
  during the pull does not change the result.
\<close>

theorem cancellation_before_return_counterexample:
  "fst (matrixSelector_Next
       \<lparr>IsExtFunction = (\<lambda>n. False),
        InvalidSample = \<lparr>sample_Point = \<lparr>pt_T = -1, pt_V = 0, pt_H = None\<rparr>, sample_Metric = []\<rparr>,
        DropMetricName = (\<lambda>l. l)\<rparr>
       \<lparr>errAtEntry = None, errAtReturn = Some Canceled\<rparr>
       (NewMatrixSelector
          (\<lambda>c a b. Inr [\<lparr>sg_labels = [], sg_signature = 7,
                          sg_samples = [(10, FloatValue 0x3FF0000000000000)], sg_fail = None\<rparr>])
          (\<lambda>a. \<lparr>sample_Point = \<lparr>pt_T = fa_StepTime a, pt_V = 0x3FF0000000000000, pt_H = None\<rparr>,
                 sample_Metric = []\<rparr>)
          ''rate'' 1 10 10 0 10 0 0 1 0))
     = Inr (Some [\<lparr>sv_T = 10, SampleIDs = [7], Samples = [0x3FF0000000000000],
                    HistogramIDs = [], Histograms = []\<rparr>])"
  by (simp add: NewMatrixSelector_def matrixSelector_Next_def matrixSelector_loadSeries_def
      newMatrixScanner_def GetVectorBatch_def GetStepVector_def appendResult_def AppendSample_def
      point_eq_def float64_eq_def float64_isNaN_def
      selectPoints_def selectPoints_reuse_def selectPoints_drop_def selectPoints_sought_def
      NewBufferIterator_def newSeriesIterator_def si_Next_def si_moveTo_def si_Seek_def si_At_def
      BufferedSeriesIterator_Seek_def BufferedSeriesIterator_Next_def BufferedSeriesIterator_Err_def
      Buffer_def ReduceDelta_def sampleRing_add_def MinInt64_def
      IsStaleNaN_def StaleNaN_def Let_def floatPoint_def)

end
